theory Spec2Isabelle
  imports Complex_Main
begin

section \<open>Numbers and values of the scripts\<close>

text \<open>
  The repository holds three userscripts: the NZD script
  (\<^verbatim>\<open>src/unnamed/part_000\<close>, realestate.co.nz) and two variants of the AUD script
  (\<^verbatim>\<open>src/unnamed/part_001\<close> and \<^verbatim>\<open>src/realestate-aud-to-usd.user.js\<close>).

  JavaScript numbers are modelled by exact rationals together with \<open>NaN\<close> and the two
  infinities; the rounding of IEEE doubles is not modelled.  Text is modelled by HOL
  strings, read as the Latin-1 range of UTF-16 code units (so \<open>CHR 0xA0\<close> is the
  non-breaking space and \<open>CHR 0xB7\<close> the middle dot).
\<close>

datatype jsnum = NaN | Fin rat | PosInf | NegInf

datatype jsval =
    Undefined
  | Null
  | Bool bool
  | Num jsnum
  | Str string
  | Arr "jsval list"
  | Obj "(string \<times> jsval) list"

text \<open>ToBoolean.\<close>

fun truthy :: "jsval \<Rightarrow> bool" where
  "truthy Undefined = False"
| "truthy Null = False"
| "truthy (Bool b) = b"
| "truthy (Num NaN) = False"
| "truthy (Num (Fin r)) = (r \<noteq> 0)"
| "truthy (Num PosInf) = True"
| "truthy (Num NegInf) = True"
| "truthy (Str s) = (s \<noteq> [])"
| "truthy (Arr xs) = True"
| "truthy (Obj kvs) = True"

text \<open>The comparison \<open>v > 0\<close> on a number; a value that is not a number is not counted
  as positive.\<close>

fun is_positive :: "jsval \<Rightarrow> bool" where
  "is_positive (Num (Fin r)) = (0 < r)"
| "is_positive (Num PosInf) = True"
| "is_positive v = False"

datatype exn = TypeError | SyntaxError | NetworkError | StorageError | HierarchyRequestError

text \<open>Reading a property \<open>v.k\<close> for a key that no prototype defines (the scripts read
  \<open>rates\<close> and \<open>USD\<close> only): it throws on \<open>undefined\<close> and \<open>null\<close>, finds an own
  property of an object, and is \<open>undefined\<close> on every other value.\<close>

fun get_prop :: "jsval \<Rightarrow> string \<Rightarrow> exn + jsval" where
  "get_prop Undefined k = Inl TypeError"
| "get_prop Null k = Inl TypeError"
| "get_prop (Obj kvs) k = (case map_of kvs k of Some v \<Rightarrow> Inr v | None \<Rightarrow> Inr Undefined)"
| "get_prop v k = Inr Undefined"

section \<open>Characters, patterns and number formats\<close>

definition is_digit :: "char \<Rightarrow> bool" where
  "is_digit c = (c \<in> set ''0123456789'')"

text \<open>The class \<open>[\d,]\<close>.\<close>

definition is_dc :: "char \<Rightarrow> bool" where
  "is_dc c = (is_digit c \<or> c = CHR '','')"

text \<open>The class \<open>\s\<close> on the Latin-1 range: tab, line feed, vertical tab, form feed,
  carriage return, space and the non-breaking space.  \<open>[\s\u00a0]\<close> is the same class.\<close>

definition is_ws :: "char \<Rightarrow> bool" where
  "is_ws c = (c \<in> set [CHR 0x09, CHR 0x0A, CHR 0x0B, CHR 0x0C, CHR 0x0D, CHR 0x20, CHR 0xA0])"

definition lower_ascii :: "char \<Rightarrow> char" where
  "lower_ascii c =
     (let n = (of_char c :: nat) in if 65 \<le> n \<and> n \<le> 90 then char_of (n + 32) else c)"

text \<open>A lower-case ASCII literal matched at the start of a string under the \<open>i\<close> flag.\<close>

definition ci_prefix :: "string \<Rightarrow> string \<Rightarrow> bool" where
  "ci_prefix pat s = (map lower_ascii (take (length pat) s) = pat)"

text \<open>
  A match is \<open>(before, whole, group 1, after)\<close>.  The quantifiers of the scripts'
  patterns are greedy and each is followed by something its class excludes, so the
  greedy reading is the only one that can succeed and no backtracking is modelled.
\<close>

type_synonym rmatch = "string \<times> string \<times> string \<times> string"

text \<open>\<open>\$([\d,]+)[\s\u00a0]*per week\<close> with flag \<open>i\<close>, tried at the start of \<open>s\<close>.\<close>

definition price_at :: "string \<Rightarrow> (string \<times> string \<times> string) option" where
  "price_at s =
     (case s of
        [] \<Rightarrow> None
      | c # r \<Rightarrow>
          let cap = takeWhile is_dc r; r1 = dropWhile is_dc r;
              sp = takeWhile is_ws r1; r2 = dropWhile is_ws r1
          in if c = CHR ''$'' \<and> cap \<noteq> [] \<and> ci_prefix ''per week'' r2
             then Some (c # cap @ sp @ take 8 r2, cap, drop 8 r2)
             else None)"

text \<open>\<open>\$([\d,]+)\<close>, tried at the start of \<open>s\<close>.\<close>

definition amount_at :: "string \<Rightarrow> (string \<times> string \<times> string) option" where
  "amount_at s =
     (case s of
        [] \<Rightarrow> None
      | c # r \<Rightarrow>
          let cap = takeWhile is_dc r
          in if c = CHR ''$'' \<and> cap \<noteq> [] then Some (c # cap, cap, dropWhile is_dc r) else None)"

text \<open>The leftmost match: the pattern is tried at each position from the left.\<close>

fun search :: "(string \<Rightarrow> (string \<times> string \<times> string) option) \<Rightarrow> string \<Rightarrow> string \<Rightarrow> rmatch option" where
  "search m pre [] = (case m [] of Some (w, g, post) \<Rightarrow> Some (pre, w, g, post) | None \<Rightarrow> None)"
| "search m pre (c # r) =
     (case m (c # r) of
        Some (w, g, post) \<Rightarrow> Some (pre, w, g, post)
      | None \<Rightarrow> search m (pre @ [c]) r)"

definition PRICE_REGEX :: "string \<Rightarrow> rmatch option" where
  "PRICE_REGEX s = search price_at [] s"

definition PRICE_AMOUNT_REGEX :: "string \<Rightarrow> rmatch option" where
  "PRICE_AMOUNT_REGEX s = search amount_at [] s"

definition regex_test :: "(string \<Rightarrow> rmatch option) \<Rightarrow> string \<Rightarrow> bool" where
  "regex_test re s = (re s \<noteq> None)"

text \<open>
  \<open>^[\s\u00a0]*per week[\s\u00a0]*$\<close> (fast path) and
  \<open>^\s*(?:\u00a0\s*)?per week\s*$\<close> (split-element pass), both with flag \<open>i\<close>.  As
  \<open>\s\<close> contains the non-breaking space, the optional group of the second pattern adds
  nothing and both accept the same strings.
\<close>

definition per_week_only :: "string \<Rightarrow> bool" where
  "per_week_only s =
     (let r = dropWhile is_ws s in ci_prefix ''per week'' r \<and> list_all is_ws (drop 8 r))"

text \<open>\<open>s.toLowerCase().includes('per week')\<close>.\<close>

fun includes_per_week :: "string \<Rightarrow> bool" where
  "includes_per_week [] = False"
| "includes_per_week (c # r) = (ci_prefix ''per week'' (c # r) \<or> includes_per_week r)"

text \<open>\<open>s.replace(/,/g, '')\<close>.\<close>

definition strip_commas :: "string \<Rightarrow> string" where
  "strip_commas s = filter (\<lambda>c. c \<noteq> CHR '','') s"

definition digit_val :: "char \<Rightarrow> nat" where
  "digit_val c = of_char c - 48"

definition digits_val :: "string \<Rightarrow> nat" where
  "digits_val ds = foldl (\<lambda>acc c. 10 * acc + digit_val c) 0 ds"

text \<open>\<open>parseInt(s, 10)\<close>: leading white space, an optional sign, then the longest run of
  digits; \<open>None\<close> is \<open>NaN\<close>.\<close>

definition parseInt10 :: "string \<Rightarrow> int option" where
  "parseInt10 s =
     (let t = dropWhile is_ws s;
          neg = (t \<noteq> [] \<and> hd t = CHR ''-'');
          u = (if t \<noteq> [] \<and> (hd t = CHR ''-'' \<or> hd t = CHR ''+'') then tl t else t);
          ds = takeWhile is_digit u
      in if ds = [] then None
         else Some (if neg then - int (digits_val ds) else int (digits_val ds)))"

text \<open>\<open>parseFloat\<close> on a string of digits (what the AUD script applies it to, after the
  commas are stripped from group 1): the value of the digits, \<open>NaN\<close> on the empty string.\<close>

definition parseFloat_digits :: "string \<Rightarrow> int option" where
  "parseFloat_digits s = (if s = [] then None else Some (int (digits_val s)))"

definition digit_char :: "nat \<Rightarrow> char" where
  "digit_char n = char_of (48 + n mod 10)"

fun digits_of :: "nat \<Rightarrow> string" where
  "digits_of n = (if n < 10 then [digit_char n] else digits_of (n div 10) @ [digit_char n])"

fun group3 :: "string \<Rightarrow> string" where
  "group3 s =
     (if length s \<le> 3 then s
      else group3 (take (length s - 3) s) @ '','' @ drop (length s - 3) s)"

text \<open>\<open>n.toLocaleString('en-NZ')\<close> and \<open>n.toLocaleString('en-US')\<close> of an integer: the
  decimal digits in groups of three, a minus sign in front of a negative number.\<close>

definition toLocaleString :: "int \<Rightarrow> string" where
  "toLocaleString n =
     (if n < 0 then ''-'' @ group3 (digits_of (nat (- n))) else group3 (digits_of (nat n)))"

text \<open>\<open>n.toLocaleString('en-US', {style: 'currency', currency: 'USD',
  maximumFractionDigits: 0})\<close> of an integer.\<close>

definition toLocaleCurrency :: "int \<Rightarrow> string" where
  "toLocaleCurrency n =
     (if n < 0 then ''-$'' @ group3 (digits_of (nat (- n))) else ''$'' @ group3 (digits_of (nat n)))"

text \<open>
  \<open>GetSubstitution\<close> of \<open>String.prototype.replace\<close> with a string as replacement:
  \<open>$$\<close>, \<open>$&\<close>, \<open>$`\<close>, \<open>$'\<close> and the group references \<open>$n\<close>, \<open>$nn\<close>.  A two-digit
  reference beyond the number of groups is read as a one-digit reference followed by a
  digit; a reference to a group that does not exist stays as it is written.
\<close>

definition group_ref :: "string list \<Rightarrow> nat \<Rightarrow> string option" where
  "group_ref caps n = (if 1 \<le> n \<and> n \<le> length caps then Some (caps ! (n - 1)) else None)"

fun expand_template :: "string \<Rightarrow> string \<Rightarrow> string \<Rightarrow> string list \<Rightarrow> string \<Rightarrow> string" where
  "expand_template pre whole post caps [] = []"
| "expand_template pre whole post caps [c] = [c]"
| "expand_template pre whole post caps (c # x # r) =
     (if c \<noteq> CHR ''$'' then c # expand_template pre whole post caps (x # r)
      else if x = CHR ''$'' then CHR ''$'' # expand_template pre whole post caps r
      else if x = CHR ''&'' then whole @ expand_template pre whole post caps r
      else if x = CHR 0x60 then pre @ expand_template pre whole post caps r
      else if x = CHR 0x27 then post @ expand_template pre whole post caps r
      else if is_digit x then
        (case r of
           y # r' \<Rightarrow>
             if is_digit y \<and> 10 * digit_val x + digit_val y \<le> length caps then
               (case group_ref caps (10 * digit_val x + digit_val y) of
                  Some g \<Rightarrow> g @ expand_template pre whole post caps r'
                | None \<Rightarrow> CHR ''$'' # x # y # expand_template pre whole post caps r')
             else
               (case group_ref caps (digit_val x) of
                  Some g \<Rightarrow> g @ expand_template pre whole post caps r
                | None \<Rightarrow> CHR ''$'' # x # expand_template pre whole post caps r)
         | [] \<Rightarrow>
             (case group_ref caps (digit_val x) of
                Some g \<Rightarrow> g
              | None \<Rightarrow> [CHR ''$'', x]))
      else CHR ''$'' # expand_template pre whole post caps (x # r))"

text \<open>\<open>s.replace(re, template)\<close> for a pattern without the \<open>g\<close> flag: the first match
  is replaced.\<close>

definition replace_template :: "(string \<Rightarrow> rmatch option) \<Rightarrow> string \<Rightarrow> string \<Rightarrow> string" where
  "replace_template re template s =
     (case re s of
        None \<Rightarrow> s
      | Some (pre, whole, g, post) \<Rightarrow> pre @ expand_template pre whole post [g] template @ post)"

text \<open>\<open>s.replace(re, () => replacement)\<close>: the replacement is taken literally.\<close>

definition replace_literal :: "(string \<Rightarrow> rmatch option) \<Rightarrow> string \<Rightarrow> string \<Rightarrow> string" where
  "replace_literal re replacement s =
     (case re s of
        None \<Rightarrow> s
      | Some (pre, whole, g, post) \<Rightarrow> pre @ replacement @ post)"

section \<open>Price conversion\<close>

text \<open>
  The converters are modelled for an amount that is an integer and a rate that is a
  finite number, both exact: the rounding of doubles is not part of the model.
\<close>

text \<open>\<open>Math.round\<close>: the nearest integer, a tie going towards \<open>+\<infinity>\<close>.\<close>

definition Math_round :: "rat \<Rightarrow> int" where
  "Math_round x = \<lfloor>x + 1 / 2\<rfloor>"

definition FALLBACK_RATE :: rat where
  "FALLBACK_RATE = 59 / 100"

definition nzdPerWeekToUsdPerMonth :: "int \<Rightarrow> rat \<Rightarrow> int" where
  "nzdPerWeekToUsdPerMonth nzd rate = Math_round ((of_int nzd * 52) / 12 * rate)"

text \<open>The AUD script reads the rate from its variable \<open>audToUsdRate\<close>, here an argument.\<close>

definition audPerWeekToUsdPerMonth :: "rat \<Rightarrow> int \<Rightarrow> int" where
  "audPerWeekToUsdPerMonth audToUsdRate aud = Math_round ((of_int aud * 52) / 12 * audToUsdRate)"

definition formatUsd :: "int \<Rightarrow> string" where
  "formatUsd amount = ''US$'' @ toLocaleString amount"

text \<open>The text both rewriting passes put in place of a price; the fast path appends a
  space.\<close>

definition replacement_text :: "int \<Rightarrow> int \<Rightarrow> string" where
  "replacement_text nzd usd =
     ''$'' @ toLocaleString nzd @ ''/wk '' @ [CHR 0xB7] @ '' '' @ formatUsd usd @ ''/mo''"

section \<open>The document\<close>

text \<open>
  A node is a text node or an element; both carry an identity (the object reference of
  the script), an element also its tag name, its attributes and its children in order.
  Comment nodes are left out: no traversal of the scripts visits them.  The state of a
  page is the document tree together with the subtrees that \<open>remove()\<close> has detached,
  which the running loop may still hold references to.
\<close>

type_synonym attrs = "(string \<times> string) list"

datatype node = Text nat string | Elem nat string attrs "node list"

record dom =
  document :: node
  detached :: "node list"

fun node_id :: "node \<Rightarrow> nat" where
  "node_id (Text i s) = i"
| "node_id (Elem i t a cs) = i"

fun is_text :: "node \<Rightarrow> bool" where
  "is_text (Text i s) = True"
| "is_text (Elem i t a cs) = False"

fun is_elem :: "node \<Rightarrow> bool" where
  "is_elem (Text i s) = False"
| "is_elem (Elem i t a cs) = True"

fun childNodes :: "node \<Rightarrow> node list" where
  "childNodes (Text i s) = []"
| "childNodes (Elem i t a cs) = cs"

fun tagName :: "node \<Rightarrow> string" where
  "tagName (Text i s) = []"
| "tagName (Elem i t a cs) = t"

fun attributes :: "node \<Rightarrow> attrs" where
  "attributes (Text i s) = []"
| "attributes (Elem i t a cs) = a"

text \<open>\<open>textContent\<close>: the data of a text node, the concatenated text of the descendants
  of an element.\<close>

fun textContent :: "node \<Rightarrow> string" where
  "textContent (Text i s) = s"
| "textContent (Elem i t a cs) = concat (map textContent cs)"

text \<open>A node and its descendants in document order.\<close>

fun subtree :: "node \<Rightarrow> node list" where
  "subtree (Text i s) = [Text i s]"
| "subtree (Elem i t a cs) = Elem i t a cs # concat (map subtree cs)"

definition descendants :: "node \<Rightarrow> node list" where
  "descendants n = tl (subtree n)"

definition trees :: "dom \<Rightarrow> node list" where
  "trees d = document d # detached d"

definition find_node :: "dom \<Rightarrow> nat \<Rightarrow> node option" where
  "find_node d i = find (\<lambda>n. node_id n = i) (concat (map subtree (trees d)))"

fun first_some :: "'a option list \<Rightarrow> 'a option" where
  "first_some [] = None"
| "first_some (None # r) = first_some r"
| "first_some (Some x # r) = Some x"

text \<open>The elements above a node, the parent first.\<close>

fun ancestors_in :: "nat \<Rightarrow> node \<Rightarrow> nat list option" where
  "ancestors_in i (Text j s) = (if i = j then Some [] else None)"
| "ancestors_in i (Elem j t a cs) =
     (if i = j then Some []
      else (case first_some (map (ancestors_in i) cs) of
              Some up \<Rightarrow> Some (up @ [j])
            | None \<Rightarrow> None))"

definition ancestors :: "dom \<Rightarrow> nat \<Rightarrow> nat list" where
  "ancestors d i = (case first_some (map (ancestors_in i) (trees d)) of Some up \<Rightarrow> up | None \<Rightarrow> [])"

definition parentElement :: "dom \<Rightarrow> nat \<Rightarrow> nat option" where
  "parentElement d i = (case ancestors d i of [] \<Rightarrow> None | p # up \<Rightarrow> Some p)"

text \<open>\<open>el.dataset.name\<close> as a condition: the attribute is there and not empty.\<close>

definition dataset_truthy :: "attrs \<Rightarrow> string \<Rightarrow> bool" where
  "dataset_truthy a k = (case map_of a k of Some v \<Rightarrow> v \<noteq> [] | None \<Rightarrow> False)"

fun put_attr :: "string \<Rightarrow> string \<Rightarrow> attrs \<Rightarrow> attrs" where
  "put_attr k v [] = [(k, v)]"
| "put_attr k v ((k', v') # r) = (if k = k' then (k, v) # r else (k', v') # put_attr k v r)"

fun set_attr_in :: "nat \<Rightarrow> string \<Rightarrow> string \<Rightarrow> node \<Rightarrow> node" where
  "set_attr_in i k v (Text j s) = Text j s"
| "set_attr_in i k v (Elem j t a cs) =
     Elem j t (if i = j then put_attr k v a else a) (map (set_attr_in i k v) cs)"

definition set_attr :: "nat \<Rightarrow> string \<Rightarrow> string \<Rightarrow> dom \<Rightarrow> dom" where
  "set_attr i k v d =
     \<lparr>document = set_attr_in i k v (document d), detached = map (set_attr_in i k v) (detached d)\<rparr>"

text \<open>Assigning \<open>textContent\<close> of a text node.\<close>

fun set_text_in :: "nat \<Rightarrow> string \<Rightarrow> node \<Rightarrow> node" where
  "set_text_in i s (Text j t) = (if i = j then Text j s else Text j t)"
| "set_text_in i s (Elem j t a cs) = Elem j t a (map (set_text_in i s) cs)"

definition set_text :: "nat \<Rightarrow> string \<Rightarrow> dom \<Rightarrow> dom" where
  "set_text i s d =
     \<lparr>document = set_text_in i s (document d), detached = map (set_text_in i s) (detached d)\<rparr>"

text \<open>\<open>child.remove()\<close>: a node that has a parent is taken out of it and lives on as a
  detached subtree; on a node without a parent nothing happens.\<close>

fun remove_in :: "nat \<Rightarrow> node \<Rightarrow> node" where
  "remove_in i (Text j s) = Text j s"
| "remove_in i (Elem j t a cs) = Elem j t a (map (remove_in i) (filter (\<lambda>c. node_id c \<noteq> i) cs))"

definition remove_node :: "nat \<Rightarrow> dom \<Rightarrow> dom" where
  "remove_node i d =
     (case parentElement d i of
        None \<Rightarrow> d
      | Some p \<Rightarrow>
          (case find_node d i of
             None \<Rightarrow> d
           | Some n \<Rightarrow>
               \<lparr>document = remove_in i (document d),
                detached = map (remove_in i) (detached d) @ [n]\<rparr>))"

text \<open>The nodes a \<open>TreeWalker\<close> rooted at \<open>root\<close> yields (the root itself is never
  yielded), and \<open>root.querySelectorAll('*')\<close>.\<close>

definition text_nodes_under :: "dom \<Rightarrow> nat \<Rightarrow> node list" where
  "text_nodes_under d rt =
     (case find_node d rt of None \<Rightarrow> [] | Some n \<Rightarrow> filter is_text (descendants n))"

definition elements_under :: "dom \<Rightarrow> nat \<Rightarrow> node list" where
  "elements_under d rt =
     (case find_node d rt of None \<Rightarrow> [] | Some n \<Rightarrow> filter is_elem (descendants n))"

section \<open>The NZD script: locating and rewriting prices\<close>

definition CONVERTED :: string where
  "CONVERTED = ''data-nzd-converted''"

text \<open>The selector \<open>[data-test="price-display__price-method"]\<close>.\<close>

definition sel_price_method :: "node \<Rightarrow> bool" where
  "sel_price_method n = (is_elem n \<and> map_of (attributes n) ''data-test'' = Some ''price-display__price-method'')"

text \<open>Removing the elements below \<open>el\<close> whose whole text is the qualifier: the list of
  elements is taken first, each one's text is read when its turn comes.\<close>

definition remove_qualifiers :: "nat \<Rightarrow> dom \<Rightarrow> dom" where
  "remove_qualifiers el d =
     fold (\<lambda>child d'.
             case find_node d' child of
               None \<Rightarrow> d'
             | Some c \<Rightarrow> if per_week_only (textContent c) then remove_node child d' else d')
          (map node_id (elements_under d el)) d"

definition fast_containers :: "dom \<Rightarrow> nat \<Rightarrow> nat list" where
  "fast_containers d rt =
     (case find_node d rt of
        None \<Rightarrow> []
      | Some n \<Rightarrow>
          if is_elem n \<and> sel_price_method n then [rt]
          else if is_elem n then map node_id (filter sel_price_method (descendants n))
          else [])"

text \<open>The body of the loop of \<open>transformPriceDisplayElements\<close>.\<close>

definition fast_step :: "rat \<Rightarrow> nat \<Rightarrow> dom \<Rightarrow> dom" where
  "fast_step rate el d =
     (case find_node d el of
        None \<Rightarrow> d
      | Some n \<Rightarrow>
          if dataset_truthy (attributes n) CONVERTED then d
          else
            (case find (\<lambda>c. is_text c \<and> regex_test PRICE_AMOUNT_REGEX (textContent c)) (childNodes n) of
               None \<Rightarrow> d
             | Some amountNode \<Rightarrow>
                 (case PRICE_AMOUNT_REGEX (textContent amountNode) of
                    None \<Rightarrow> d
                  | Some (pre, whole, g, post) \<Rightarrow>
                      (case parseInt10 (strip_commas g) of
                         None \<Rightarrow> d
                       | Some nzd \<Rightarrow>
                           let usd = nzdPerWeekToUsdPerMonth nzd rate;
                               d1 = set_attr el CONVERTED ''true'' d;
                               d2 = set_text (node_id amountNode) (replacement_text nzd usd @ '' '') d1
                           in remove_qualifiers el d2))))"

definition transformPriceDisplayElements :: "rat \<Rightarrow> nat \<Rightarrow> dom \<Rightarrow> dom" where
  "transformPriceDisplayElements rate rt d = fold (fast_step rate) (fast_containers d rt) d"

text \<open>
  \<open>hasConvertedAncestor(el, stopAt)\<close>: the loop visits \<open>el\<close>, its parent element, the
  parent of that and so on, and ends at \<open>stopAt\<close> or above the topmost element.
\<close>

definition is_converted :: "dom \<Rightarrow> nat \<Rightarrow> bool" where
  "is_converted d i =
     (case find_node d i of None \<Rightarrow> False | Some n \<Rightarrow> dataset_truthy (attributes n) CONVERTED)"

definition hasConvertedAncestor :: "dom \<Rightarrow> nat option \<Rightarrow> nat option \<Rightarrow> bool" where
  "hasConvertedAncestor d el stopAt =
     (case el of
        None \<Rightarrow> False
      | Some e \<Rightarrow> list_ex (is_converted d) (takeWhile (\<lambda>n. Some n \<noteq> stopAt) (e # ancestors d e)))"

text \<open>Pass 1 of \<open>transformSubtree\<close>, for one text node.\<close>

definition pass1_step :: "rat \<Rightarrow> nat \<Rightarrow> nat \<Rightarrow> dom \<Rightarrow> dom" where
  "pass1_step rate rt tn d =
     (case find_node d tn of
        None \<Rightarrow> d
      | Some n \<Rightarrow>
          if \<not> regex_test PRICE_REGEX (textContent n) then d
          else if hasConvertedAncestor d (parentElement d tn) (parentElement d rt) then d
          else
            (case PRICE_REGEX (textContent n) of
               None \<Rightarrow> d
             | Some (pre, whole, g, post) \<Rightarrow>
                 (case parseInt10 (strip_commas g) of
                    None \<Rightarrow> d
                  | Some nzd \<Rightarrow>
                      let usdPerMonth = nzdPerWeekToUsdPerMonth nzd rate;
                          replacement = replacement_text nzd usdPerMonth;
                          d1 = (case parentElement d tn of
                                  Some p \<Rightarrow> set_attr p CONVERTED ''true'' d
                                | None \<Rightarrow> d)
                      in set_text tn (replace_literal PRICE_REGEX replacement (textContent n)) d1)))"

text \<open>Pass 2 of \<open>transformSubtree\<close>, for one candidate element.\<close>

definition pass2_step :: "rat \<Rightarrow> nat \<Rightarrow> nat \<Rightarrow> dom \<Rightarrow> dom" where
  "pass2_step rate rt el d =
     (if hasConvertedAncestor d (Some el) (parentElement d rt) then d
      else
        (case find_node d el of
           None \<Rightarrow> d
         | Some n \<Rightarrow>
             if \<not> regex_test PRICE_REGEX (textContent n) then d
             else
               let allTextNodes = filter is_text (descendants n) in
               if list_ex (\<lambda>t. regex_test PRICE_REGEX (textContent t)) allTextNodes then d
               else if length allTextNodes > 6 then d
               else
                 (case find (\<lambda>t. regex_test PRICE_AMOUNT_REGEX (textContent t)) allTextNodes of
                    None \<Rightarrow> d
                  | Some priceNode \<Rightarrow>
                      (case PRICE_AMOUNT_REGEX (textContent priceNode) of
                         None \<Rightarrow> d
                       | Some (pre, whole, g, post) \<Rightarrow>
                           (case parseInt10 (strip_commas g) of
                              None \<Rightarrow> d
                            | Some nzd \<Rightarrow>
                                let usdPerMonth = nzdPerWeekToUsdPerMonth nzd rate;
                                    replacement = replacement_text nzd usdPerMonth;
                                    d1 = set_attr el CONVERTED ''true'' d;
                                    d2 = set_text (node_id priceNode)
                                           (replace_template PRICE_AMOUNT_REGEX replacement
                                              (textContent priceNode)) d1
                                in remove_qualifiers el d2)))))"

definition pass1 :: "rat \<Rightarrow> nat \<Rightarrow> dom \<Rightarrow> dom" where
  "pass1 rate rt d = fold (pass1_step rate rt) (map node_id (text_nodes_under d rt)) d"

definition candidateEls :: "dom \<Rightarrow> nat \<Rightarrow> nat list" where
  "candidateEls d rt =
     (case find_node d rt of
        None \<Rightarrow> []
      | Some n \<Rightarrow> (if is_elem n then [rt] else []) @ map node_id (filter is_elem (descendants n)))"

definition pass2 :: "rat \<Rightarrow> nat \<Rightarrow> dom \<Rightarrow> dom" where
  "pass2 rate rt d = fold (pass2_step rate rt) (candidateEls d rt) d"

definition transformSubtree :: "rat \<Rightarrow> nat \<Rightarrow> dom \<Rightarrow> dom" where
  "transformSubtree rate rt d = pass2 rate rt (pass1 rate rt (transformPriceDisplayElements rate rt d))"

section \<open>The AUD script: labels beside prices\<close>

definition AUD_FALLBACK_RATE :: rat where
  "AUD_FALLBACK_RATE = 67 / 100"

text \<open>The tokens of a \<open>class\<close> attribute (split at ASCII white space), and the test of
  \<open>[class*="..."]\<close>.\<close>

definition is_css_ws :: "char \<Rightarrow> bool" where
  "is_css_ws c = (c \<in> set [CHR 0x09, CHR 0x0A, CHR 0x0C, CHR 0x0D, CHR 0x20])"

fun tokens :: "string \<Rightarrow> string \<Rightarrow> string list" where
  "tokens cur [] = (if cur = [] then [] else [cur])"
| "tokens cur (c # r) =
     (if is_css_ws c then (if cur = [] then tokens [] r else cur # tokens [] r)
      else tokens (cur @ [c]) r)"

fun contains_sub :: "string \<Rightarrow> string \<Rightarrow> bool" where
  "contains_sub sub [] = (sub = [])"
| "contains_sub sub (c # r) = (take (length sub) (c # r) = sub \<or> contains_sub sub r)"

definition has_class :: "node \<Rightarrow> string \<Rightarrow> bool" where
  "has_class n c = (case map_of (attributes n) ''class'' of Some v \<Rightarrow> c \<in> set (tokens [] v) | None \<Rightarrow> False)"

definition class_contains :: "node \<Rightarrow> string \<Rightarrow> bool" where
  "class_contains n sub = (case map_of (attributes n) ''class'' of Some v \<Rightarrow> contains_sub sub v | None \<Rightarrow> False)"

definition namedSelectors :: "node \<Rightarrow> bool" where
  "namedSelectors n =
     (is_elem n \<and>
      (has_class n ''property-price'' \<or> has_class n ''property-info__price'' \<or>
       has_class n ''property-price__price'' \<or> class_contains n ''HeadlineText'' \<or>
       class_contains n ''PropertyPrice''))"

text \<open>The selector \<open>p, span, div\<close>.\<close>

definition sel_p_span_div :: "node \<Rightarrow> bool" where
  "sel_p_span_div n = (is_elem n \<and> tagName n \<in> set [''p'', ''span'', ''div''])"

definition textFallback :: "dom \<Rightarrow> node list" where
  "textFallback d =
     filter (\<lambda>el. \<not> list_ex sel_p_span_div (descendants el) \<and>
                  regex_test PRICE_AMOUNT_REGEX (textContent el) \<and>
                  includes_per_week (textContent el))
            (filter sel_p_span_div (subtree (document d)))"

definition candidates :: "dom \<Rightarrow> nat list" where
  "candidates d = map node_id (filter namedSelectors (subtree (document d))) @ map node_id (textFallback d)"

text \<open>\<open>s.trim()\<close>.\<close>

definition trim :: "string \<Rightarrow> string" where
  "trim s = rev (dropWhile is_ws (rev (dropWhile is_ws s)))"

definition AUD_CONVERTED :: string where
  "AUD_CONVERTED = ''data-converted''"

definition label_style :: string where
  "label_style = ''font-size: 0.78em;color: #555;font-weight: normal;margin-top: 2px;line-height: 1.3;font-family: inherit''"

text \<open>The largest identity in use; a created node takes the next ones.\<close>

definition max_id :: "dom \<Rightarrow> nat" where
  "max_id d = fold max (map node_id (concat (map subtree (trees d)))) 0"

fun insert_after_in :: "nat \<Rightarrow> node \<Rightarrow> node \<Rightarrow> node" where
  "insert_after_in i new (Text j s) = Text j s"
| "insert_after_in i new (Elem j t a cs) =
     Elem j t a (concat (map (\<lambda>c. if node_id c = i then [c, new] else [insert_after_in i new c]) cs))"

text \<open>
  \<open>el.insertAdjacentElement('afterend', label)\<close>: with a parent element the label becomes
  the next sibling; the root element of the document has the document as parent, which
  cannot take a second element (\<open>HierarchyRequestError\<close>); a detached
  root has no parent and nothing happens.
\<close>

definition insertAdjacentElement_afterend :: "nat \<Rightarrow> node \<Rightarrow> dom \<Rightarrow> exn + dom" where
  "insertAdjacentElement_afterend el new d =
     (if node_id (document d) = el then Inl HierarchyRequestError
      else Inr \<lparr>document = insert_after_in el new (document d),
                detached = map (insert_after_in el new) (detached d)\<rparr>)"

text \<open>The amount on the label: the script of \<^verbatim>\<open>realestate-aud-to-usd.user.js\<close> rounds
  with \<open>Math.round\<close> and formats the integer; the one of \<^verbatim>\<open>part_001\<close> lets the
  currency format round (half away from zero).\<close>

definition label_amount :: "rat \<Rightarrow> int \<Rightarrow> int" where
  "label_amount audToUsdRate weeklyAud = audPerWeekToUsdPerMonth audToUsdRate weeklyAud"

definition round_half_expand :: "rat \<Rightarrow> int" where
  "round_half_expand x = (if x < 0 then - \<lfloor>- x + 1 / 2\<rfloor> else \<lfloor>x + 1 / 2\<rfloor>)"

definition label_amount_part1 :: "rat \<Rightarrow> int \<Rightarrow> int" where
  "label_amount_part1 audToUsdRate weeklyAud = round_half_expand ((of_int weeklyAud * 52) / 12 * audToUsdRate)"

definition insertConversionLabel :: "(rat \<Rightarrow> int \<Rightarrow> int) \<Rightarrow> rat \<Rightarrow> nat \<Rightarrow> int \<Rightarrow> dom \<Rightarrow> exn + dom" where
  "insertConversionLabel amount audToUsdRate el weeklyAud d =
     (let usdPerMonth = amount audToUsdRate weeklyAud;
          i = Suc (max_id d);
          label = Elem i ''div'' [(''class'', ''rea-rent-converted''), (''style'', label_style)]
                    [Text (Suc i) (''~'' @ toLocaleCurrency usdPerMonth @ '' USD/month'')]
      in case insertAdjacentElement_afterend el label d of
           Inl e \<Rightarrow> Inl e
         | Inr d1 \<Rightarrow> Inr (set_attr el AUD_CONVERTED ''true'' d1))"

text \<open>The body of the loop over the candidates, with the set \<open>seen\<close>.\<close>

definition convert_candidate :: "(rat \<Rightarrow> int \<Rightarrow> int) \<Rightarrow> rat \<Rightarrow> nat \<Rightarrow> dom \<Rightarrow> exn + dom" where
  "convert_candidate amount audToUsdRate el d =
     (case find_node d el of
        None \<Rightarrow> Inr d
      | Some n \<Rightarrow>
          (case PRICE_AMOUNT_REGEX (trim (textContent n)) of
             None \<Rightarrow> Inr d
           | Some (pre, whole, g, post) \<Rightarrow>
               (case parseFloat_digits (strip_commas g) of
                  None \<Rightarrow> Inr d
                | Some weeklyAud \<Rightarrow>
                    if weeklyAud > 50 then insertConversionLabel amount audToUsdRate el weeklyAud d
                    else Inr d)))"

fun convert_loop :: "(rat \<Rightarrow> int \<Rightarrow> int) \<Rightarrow> rat \<Rightarrow> nat list \<Rightarrow> nat list \<Rightarrow> dom \<Rightarrow> exn + dom" where
  "convert_loop amount audToUsdRate seen [] d = Inr d"
| "convert_loop amount audToUsdRate seen (el # els) d =
     (if el \<in> set seen \<or>
         (case find_node d el of None \<Rightarrow> False | Some n \<Rightarrow> dataset_truthy (attributes n) AUD_CONVERTED)
      then convert_loop amount audToUsdRate seen els d
      else
        (case convert_candidate amount audToUsdRate el d of
           Inl e \<Rightarrow> Inl e
         | Inr d1 \<Rightarrow> convert_loop amount audToUsdRate (el # seen) els d1))"

definition convertPricesOnPage :: "rat \<Rightarrow> dom \<Rightarrow> exn + dom" where
  "convertPricesOnPage audToUsdRate d = convert_loop label_amount audToUsdRate [] (candidates d) d"

definition convertPricesOnPage_part1 :: "rat \<Rightarrow> dom \<Rightarrow> exn + dom" where
  "convertPricesOnPage_part1 audToUsdRate d = convert_loop label_amount_part1 audToUsdRate [] (candidates d) d"

section \<open>The exchange rate\<close>

text \<open>
  \<open>localStorage\<close>: the stored strings; an access may be denied altogether
  (\<open>SecurityError\<close>), and \<open>setItem\<close> fails once the quota is used up, which
  \<open>writes_left\<close> counts down to.
\<close>

record storage =
  items :: "(string \<times> string) list"
  denied :: bool
  writes_left :: nat

definition getItem :: "storage \<Rightarrow> string \<Rightarrow> exn + string option" where
  "getItem st k = (if denied st then Inl StorageError else Inr (map_of (items st) k))"

fun put_item :: "string \<Rightarrow> string \<Rightarrow> (string \<times> string) list \<Rightarrow> (string \<times> string) list" where
  "put_item k v [] = [(k, v)]"
| "put_item k v ((k', v') # r) = (if k = k' then (k, v) # r else (k', v') # put_item k v r)"

definition setItem :: "storage \<Rightarrow> string \<Rightarrow> string \<Rightarrow> exn + storage" where
  "setItem st k v =
     (if denied st \<or> writes_left st = 0 then Inl StorageError
      else Inr (st\<lparr>items := put_item k v (items st), writes_left := writes_left st - 1\<rparr>))"

definition CACHE_KEY_RATE :: string where
  "CACHE_KEY_RATE = ''nzd_usd_rate''"

definition CACHE_KEY_TIME :: string where
  "CACHE_KEY_TIME = ''nzd_usd_rate_time''"

definition CACHE_TTL_MS :: int where
  "CACHE_TTL_MS = 60 * 60 * 1000"

definition pow10 :: "int \<Rightarrow> rat" where
  "pow10 e = (if 0 \<le> e then 10 ^ nat e else 1 / 10 ^ nat (- e))"

text \<open>The exponent part of a decimal literal, if one follows.\<close>

definition exponent_part :: "string \<Rightarrow> int" where
  "exponent_part r =
     (case r of
        [] \<Rightarrow> 0
      | c # r1 \<Rightarrow>
          if c = CHR ''e'' \<or> c = CHR ''E'' then
            (let neg = (r1 \<noteq> [] \<and> hd r1 = CHR ''-'');
                 r2 = (if r1 \<noteq> [] \<and> (hd r1 = CHR ''-'' \<or> hd r1 = CHR ''+'') then tl r1 else r1);
                 ds = takeWhile is_digit r2
             in if ds = [] then 0 else if neg then - int (digits_val ds) else int (digits_val ds))
          else 0)"

text \<open>
  \<open>parseFloat\<close> of a string or \<open>null\<close>: leading white space, an optional sign, then
  \<open>Infinity\<close> or the longest decimal literal (digits, a fraction, an exponent); \<open>NaN\<close>
  when there is none, as for \<open>null\<close>.
\<close>

definition parseFloat :: "string option \<Rightarrow> jsnum" where
  "parseFloat a =
     (case a of
        None \<Rightarrow> NaN
      | Some s \<Rightarrow>
          let t = dropWhile is_ws s;
              neg = (t \<noteq> [] \<and> hd t = CHR ''-'');
              u = (if t \<noteq> [] \<and> (hd t = CHR ''-'' \<or> hd t = CHR ''+'') then tl t else t)
          in if take 8 u = ''Infinity'' then (if neg then NegInf else PosInf)
             else
               let ip = takeWhile is_digit u;
                   r1 = dropWhile is_digit u;
                   dot = (r1 \<noteq> [] \<and> hd r1 = CHR ''.'');
                   fp = (if dot then takeWhile is_digit (tl r1) else []);
                   r2 = (if dot then dropWhile is_digit (tl r1) else r1)
               in if ip = [] \<and> fp = [] then NaN
                  else
                    let mag = of_nat (digits_val (ip @ fp)) / 10 ^ length fp * pow10 (exponent_part r2)
                    in Fin (if neg then - mag else mag))"

text \<open>\<open>parseInt(x, 10)\<close> of a string or \<open>null\<close>.\<close>

definition parseInt :: "string option \<Rightarrow> int option" where
  "parseInt a = (case a of None \<Rightarrow> None | Some s \<Rightarrow> parseInt10 s)"

text \<open>\<open>getCachedRate\<close>: the promise of the cached rate, or \<open>null\<close> (\<open>None\<close>); an
  exception of the storage is caught.\<close>

definition getCachedRate :: "int \<Rightarrow> storage \<Rightarrow> jsnum option" where
  "getCachedRate now st =
     (case getItem st CACHE_KEY_RATE of
        Inl e \<Rightarrow> None
      | Inr r \<Rightarrow>
          (case getItem st CACHE_KEY_TIME of
             Inl e \<Rightarrow> None
           | Inr t \<Rightarrow>
               let rate = parseFloat r; time = parseInt t
               in (case time of
                     None \<Rightarrow> None
                   | Some tm \<Rightarrow>
                       if truthy (Num rate) \<and> tm \<noteq> 0 \<and> now - tm < CACHE_TTL_MS then Some rate
                       else None)))"

text \<open>What the request can come to: \<open>fetch\<close> rejects, \<open>res.json()\<close> rejects, or the
  body parses to a value.\<close>

datatype response = FetchFails | BodyNotJson | Body jsval

text \<open>\<open>a && b\<close> where reading \<open>b\<close> may throw.\<close>

definition js_and :: "jsval \<Rightarrow> exn + jsval \<Rightarrow> exn + jsval" where
  "js_and a b = (if truthy a then b else Inr a)"

text \<open>
  The \<open>try\<close> block of \<open>fetchRate\<close>: an exception (\<open>Inl\<close>) with the storage as it was
  left, or the value the block returns, \<open>None\<close> when it runs to its end without
  returning.  \<open>ToString\<close> is the conversion \<open>setItem\<close> applies to its argument; \<open>now\<close>
  is \<open>Date.now()\<close> at that moment.
\<close>

definition fetchRate_try :: "(jsval \<Rightarrow> string) \<Rightarrow> int \<Rightarrow> response \<Rightarrow> storage \<Rightarrow> (exn \<times> storage) + (jsval option \<times> storage)" where
  "fetchRate_try ToString now resp st =
     (case resp of
        FetchFails \<Rightarrow> Inl (NetworkError, st)
      | BodyNotJson \<Rightarrow> Inl (SyntaxError, st)
      | Body data \<Rightarrow>
          (case get_prop data ''rates'' of
             Inl e \<Rightarrow> Inl (e, st)
           | Inr rates \<Rightarrow>
               (case js_and rates (get_prop rates ''USD'') of
                  Inl e \<Rightarrow> Inl (e, st)
                | Inr rate \<Rightarrow>
                    if truthy rate then
                      (case setItem st CACHE_KEY_RATE (ToString rate) of
                         Inl e \<Rightarrow> Inl (e, st)
                       | Inr st1 \<Rightarrow>
                           (case setItem st1 CACHE_KEY_TIME (ToString (Num (Fin (of_int now)))) of
                              Inl e \<Rightarrow> Inl (e, st1)
                            | Inr st2 \<Rightarrow> Inr (Some rate, st2)))
                    else Inr (None, st))))"

text \<open>\<open>fetchRate\<close>: the \<open>catch\<close> clause logs a warning and falls through to
  \<open>return FALLBACK_RATE\<close>.\<close>

definition fetchRate :: "(jsval \<Rightarrow> string) \<Rightarrow> int \<Rightarrow> response \<Rightarrow> storage \<Rightarrow> exn + (jsval \<times> storage)" where
  "fetchRate ToString now resp st =
     (case fetchRate_try ToString now resp st of
        Inl (e, st') \<Rightarrow> Inr (Num (Fin FALLBACK_RATE), st')
      | Inr (Some rate, st') \<Rightarrow> Inr (rate, st')
      | Inr (None, st') \<Rightarrow> Inr (Num (Fin FALLBACK_RATE), st'))"

text \<open>\<open>getRate\<close>: \<open>getCachedRate() ?? (await fetchRate())\<close>; \<open>now\<close> is the time of the
  cache lookup, \<open>now'\<close> the time the response is stored.\<close>

definition getRate :: "(jsval \<Rightarrow> string) \<Rightarrow> int \<Rightarrow> int \<Rightarrow> response \<Rightarrow> storage \<Rightarrow> exn + (jsval \<times> storage)" where
  "getRate ToString now now' resp st =
     (case getCachedRate now st of
        Some rate \<Rightarrow> Inr (Num rate, st)
      | None \<Rightarrow> fetchRate ToString now' resp st)"

text \<open>
  The AUD scripts keep the rate in the variable \<open>audToUsdRate\<close>, which starts as the
  fallback; \<open>onload\<close> of the request is its only assignment.  \<open>JSON.parse\<close> throws
  (\<open>BodyNotJson\<close>) or gives a value; the callback is not called when the request fails.
\<close>

definition aud_onload :: "response \<Rightarrow> jsval \<Rightarrow> jsval" where
  "aud_onload resp audToUsdRate =
     (case resp of
        FetchFails \<Rightarrow> audToUsdRate
      | BodyNotJson \<Rightarrow> audToUsdRate
      | Body data \<Rightarrow>
          (case js_and data (get_prop data ''rates'') of
             Inl e \<Rightarrow> audToUsdRate
           | Inr rates \<Rightarrow>
               (case js_and rates (get_prop rates ''USD'') of
                  Inl e \<Rightarrow> audToUsdRate
                | Inr usd \<Rightarrow> if truthy usd then usd else audToUsdRate)))"

section \<open>The change loop of the NZD script\<close>

text \<open>
  \<open>initWithRate\<close> leaves behind three sources of callbacks: the mutation observer with
  its debounced handler, the scroll listener and the sweep interval.  The state below
  is what their closures share.  Time is \<open>Date.now()\<close> in milliseconds; a timer is
  taken to fire at the moment it is due.  \<open>scans\<close> records every call of
  \<open>transformSubtree\<close> the loop makes, the latest first.  The rate the loop is started
  with is taken to be a finite number (\<open>exchange\<close>).  The mutations the script itself
  causes add no node, so they never call the debounced handler; what the page does is
  given by the events.
\<close>

definition DEBOUNCE_MS :: int where
  "DEBOUNCE_MS = 200"

definition SWEEP_INTERVAL_MS :: int where
  "SWEEP_INTERVAL_MS = 1500"

definition SWEEP_IDLE_MS :: int where
  "SWEEP_IDLE_MS = 10000"

datatype scan = InitialScan int | DebouncedScan int "nat list" | SweepScan int

record loop =
  page :: dom
  exchange :: rat
  timer :: "(int \<times> nat list) option"
  lastScrollTime :: int
  sweepDue :: int
  scans :: "scan list"

text \<open>\<open>document.body\<close>: the first \<open>body\<close> or \<open>frameset\<close> child of the root element.\<close>

definition document_body :: "dom \<Rightarrow> nat option" where
  "document_body d =
     (case find (\<lambda>c. is_elem c \<and> tagName c \<in> set [''body'', ''frameset'']) (childNodes (document d)) of
        None \<Rightarrow> None
      | Some b \<Rightarrow> Some (node_id b))"

text \<open>\<open>initWithRate\<close> once the body exists (\<open>None\<close>: it defers itself and sets up
  nothing).\<close>

definition initWithRate :: "int \<Rightarrow> rat \<Rightarrow> dom \<Rightarrow> loop option" where
  "initWithRate now rate d =
     (case document_body d of
        None \<Rightarrow> None
      | Some body \<Rightarrow>
          Some \<lparr>page = transformSubtree rate body d, exchange = rate, timer = None,
                lastScrollTime = now, sweepDue = now + SWEEP_INTERVAL_MS,
                scans = [InitialScan now]\<rparr>)"

text \<open>
  The observer's callback at time \<open>t\<close>: \<open>mutations\<close> gives the added nodes of each
  record.  Only elements are kept; with at least one, the debounced handler is called,
  which clears the pending timeout and sets a new one for these roots.
\<close>

definition newRoots :: "dom \<Rightarrow> nat list list \<Rightarrow> nat list" where
  "newRoots d mutations =
     filter (\<lambda>i. case find_node d i of None \<Rightarrow> False | Some n \<Rightarrow> is_elem n) (concat mutations)"

definition debounce_call :: "int \<Rightarrow> nat list \<Rightarrow> loop \<Rightarrow> loop" where
  "debounce_call t args s = s\<lparr>timer := Some (t + DEBOUNCE_MS, args)\<rparr>"

definition on_mutations :: "int \<Rightarrow> nat list list \<Rightarrow> loop \<Rightarrow> loop" where
  "on_mutations t mutations s =
     (if newRoots (page s) mutations \<noteq> [] then debounce_call t (newRoots (page s) mutations) s else s)"

definition on_scroll :: "int \<Rightarrow> loop \<Rightarrow> loop" where
  "on_scroll t s = s\<lparr>lastScrollTime := t\<rparr>"

text \<open>The timeout of the debounced handler fires: every root of the last call is
  scanned.\<close>

definition fire_debounce :: "int \<Rightarrow> loop \<Rightarrow> loop" where
  "fire_debounce t s =
     (case timer s of
        None \<Rightarrow> s
      | Some (due, roots) \<Rightarrow>
          s\<lparr>page := fold (transformSubtree (exchange s)) roots (page s),
            timer := None,
            scans := DebouncedScan t roots # scans s\<rparr>)"

text \<open>A tick of the sweep interval.  Without a body \<open>transformSubtree\<close> throws inside
  the callback, which changes nothing.\<close>

definition fire_sweep :: "int \<Rightarrow> loop \<Rightarrow> loop" where
  "fire_sweep t s =
     (let s1 = s\<lparr>sweepDue := sweepDue s + SWEEP_INTERVAL_MS\<rparr>
      in if t - lastScrollTime s > SWEEP_IDLE_MS then s1
         else
           (case document_body (page s) of
              None \<Rightarrow> s1
            | Some body \<Rightarrow>
                s1\<lparr>page := transformSubtree (exchange s) body (page s),
                   scans := SweepScan t # scans s\<rparr>))"

text \<open>The timers due up to time \<open>t\<close> fire in the order of their due times.\<close>

function advance :: "int \<Rightarrow> loop \<Rightarrow> loop" where
  "advance t s =
     (case timer s of
        Some (due, roots) \<Rightarrow>
          if due \<le> t \<and> due \<le> sweepDue s then advance t (fire_debounce due s)
          else if sweepDue s \<le> t then advance t (fire_sweep (sweepDue s) s)
          else s
      | None \<Rightarrow>
          if sweepDue s \<le> t then advance t (fire_sweep (sweepDue s) s)
          else s)"
  by pat_completeness auto
termination
  by (relation "measure (\<lambda>(t, s). nat (t + 1 - sweepDue s) + (case timer s of None \<Rightarrow> 0 | Some x \<Rightarrow> 1))")
     (auto simp: fire_debounce_def fire_sweep_def Let_def SWEEP_INTERVAL_MS_def split: option.splits)

declare advance.simps [simp del]

text \<open>What the page and the user do: the page changes its tree and the observer reports
  the added nodes, or the user scrolls.\<close>

datatype event = Mutation int dom "nat list list" | Scroll int

fun event_time :: "event \<Rightarrow> int" where
  "event_time (Mutation t d ms) = t"
| "event_time (Scroll t) = t"

fun handle :: "event \<Rightarrow> loop \<Rightarrow> loop" where
  "handle (Mutation t d ms) s = on_mutations t ms (s\<lparr>page := d\<rparr>)"
| "handle (Scroll t) s = on_scroll t s"

fun run :: "event list \<Rightarrow> loop \<Rightarrow> loop" where
  "run [] s = s"
| "run (e # es) s = run es (handle e (advance (event_time e) s))"

definition debounced_scans :: "loop \<Rightarrow> (int \<times> nat list) list" where
  "debounced_scans s = concat (map (\<lambda>x. case x of DebouncedScan t roots \<Rightarrow> [(t, roots)] | _ \<Rightarrow> []) (scans s))"

definition sweep_scans :: "loop \<Rightarrow> int list" where
  "sweep_scans s = concat (map (\<lambda>x. case x of SweepScan t \<Rightarrow> [t] | _ \<Rightarrow> []) (scans s))"

section \<open>Well-formed documents\<close>

text \<open>Every node of a page has an identity of its own.\<close>

definition ids :: "node \<Rightarrow> nat set" where
  "ids n = node_id ` set (subtree n)"

definition dist :: "node \<Rightarrow> bool" where
  "dist n = distinct (map node_id (subtree n))"

definition dists :: "node list \<Rightarrow> bool" where
  "dists ts = distinct (map node_id (concat (map subtree ts)))"

definition wf_dom :: "dom \<Rightarrow> bool" where
  "wf_dom d = dists (trees d)"

section \<open>Notions of the specification\<close>




text \<open>A burst: observer callbacks that each report at least one added element, each
  following the one before by less than the debounce window.\<close>

fun roots_of :: "event \<Rightarrow> nat list" where
  "roots_of (Mutation t d ms) = newRoots d ms"
| "roots_of (Scroll t) = []"

fun adds_elements :: "event \<Rightarrow> bool" where
  "adds_elements (Mutation t d ms) = (newRoots d ms \<noteq> [])"
| "adds_elements (Scroll t) = False"

fun within_window :: "event list \<Rightarrow> bool" where
  "within_window (e # e' # es) =
     (event_time e \<le> event_time e' \<and> event_time e' < event_time e + DEBOUNCE_MS \<and>
      within_window (e' # es))"
| "within_window es = True"

definition burst :: "event list \<Rightarrow> bool" where
  "burst es = (es \<noteq> [] \<and> list_all adds_elements es \<and> within_window es)"

fun is_scroll :: "event \<Rightarrow> bool" where
  "is_scroll (Scroll t) = True"
| "is_scroll (Mutation t d ms) = False"

text \<open>Times, the latest first, of which each is at least one sweep interval after the
  one before.\<close>

fun spaced :: "int list \<Rightarrow> bool" where
  "spaced (a # b # r) = (b + SWEEP_INTERVAL_MS \<le> a \<and> spaced (b # r))"
| "spaced r = True"

text \<open>The sweep scans made so far are spaced, and the next tick is at least one interval
  after each of them.\<close>

definition sweeps_spaced :: "loop \<Rightarrow> bool" where
  "sweeps_spaced s =
     (spaced (sweep_scans s) \<and> list_all (\<lambda>x. x + SWEEP_INTERVAL_MS \<le> sweepDue s) (sweep_scans s))"

section \<open>Example inputs\<close>

text \<open>A marked block into which the page has put a price container of the sidebar
  layout afterwards.\<close>

definition marked_block_page :: dom where
  "marked_block_page =
     \<lparr>document =
        Elem 0 ''html'' []
          [Elem 1 ''body'' []
            [Elem 2 ''div'' [(''data-nzd-converted'', ''true'')]
              [Text 3 ''Rent'',
               Elem 4 ''div'' [(''data-test'', ''price-display__price-method'')]
                 [Text 5 ''$560 '', Elem 6 ''span'' [] [Text 7 ''per week'']],
               Elem 8 ''p'' [] [Text 9 ''$700 per week''],
               Elem 10 ''p'' [] [Text 11 ''$800 '', Elem 12 ''span'' [] [Text 13 ''per week'']]]]],
      detached = []\<rparr>"


text \<open>Three price sites, one for each layer of the NZD script, whose amount has no
  digit.\<close>

definition comma_page :: dom where
  "comma_page =
     \<lparr>document =
        Elem 0 ''html'' []
          [Elem 1 ''body'' []
            [Elem 2 ''p'' [] [Text 3 ''$, per week''],
             Elem 4 ''div'' [] [Text 5 ''$,'', Elem 6 ''span'' [] [Text 7 ''per week'']],
             Elem 8 ''div'' [(''data-test'', ''price-display__price-method'')]
               [Text 9 ''$, '', Elem 10 ''span'' [] [Text 11 ''per week'']]]],
      detached = []\<rparr>"

text \<open>A rent of zero dollars.\<close>

definition zero_page :: dom where
  "zero_page =
     \<lparr>document = Elem 0 ''html'' [] [Elem 1 ''body'' [] [Elem 2 ''p'' [] [Text 3 ''$0 per week'']]],
      detached = []\<rparr>"

text \<open>A price range on a page of the AUD site, and one whose lower end is below the
  sanity bound.\<close>

definition range_page :: dom where
  "range_page =
     \<lparr>document =
        Elem 0 ''html'' []
          [Elem 1 ''body'' [] [Elem 2 ''span'' [(''class'', ''property-price'')] [Text 3 ''$570 - $620 per week'']]],
      detached = []\<rparr>"

definition low_range_page :: dom where
  "low_range_page =
     \<lparr>document =
        Elem 0 ''html'' []
          [Elem 1 ''body'' [] [Elem 2 ''span'' [(''class'', ''property-price'')] [Text 3 ''$20 - $620 per week'']]],
      detached = []\<rparr>"

text \<open>Sidebar price containers of the NZD site: one with a range in its bare text, one
  with an amount inside a child element in front of the bare text.\<close>

definition sidebar_range_page :: dom where
  "sidebar_range_page =
     \<lparr>document =
        Elem 0 ''html'' []
          [Elem 1 ''body'' []
            [Elem 2 ''div'' [(''data-test'', ''price-display__price-method'')]
               [Text 3 ''$570 - $620 '', Elem 4 ''span'' [] [Text 5 ''per week'']]]],
      detached = []\<rparr>"

definition sidebar_nested_page :: dom where
  "sidebar_nested_page =
     \<lparr>document =
        Elem 0 ''html'' []
          [Elem 1 ''body'' []
            [Elem 2 ''div'' [(''data-test'', ''price-display__price-method'')]
               [Elem 3 ''span'' [] [Text 4 ''$100''], Text 5 ''$560 '', Elem 6 ''span'' [] [Text 7 ''per week'']]]],
      detached = []\<rparr>"

text \<open>A listing whose body holds seven text nodes: a price split over two sibling
  elements, a compact price widget and three more pieces of text.\<close>

definition listing_page :: dom where
  "listing_page =
     \<lparr>document =
        Elem 0 ''html'' []
          [Elem 1 ''body'' []
            [Elem 2 ''span'' [] [Text 3 ''$700''],
             Elem 4 ''span'' [] [Text 5 ''per week''],
             Elem 6 ''div'' [] [Text 7 ''$560 '', Elem 8 ''span'' [] [Text 9 ''per week'']],
             Elem 10 ''i'' [] [Text 11 ''a''],
             Elem 12 ''i'' [] [Text 13 ''b''],
             Elem 14 ''i'' [] [Text 15 ''c'']]],
      detached = []\<rparr>"

text \<open>The listing after one pass over the body, and after a second one.\<close>

definition listing_after_first :: dom where
  "listing_after_first =
     \<lparr>document =
        Elem 0 ''html'' []
          [Elem 1 ''body'' []
            [Elem 2 ''span'' [] [Text 3 ''$700''],
             Elem 4 ''span'' [] [Text 5 ''per week''],
             Elem 6 ''div'' [(''data-nzd-converted'', ''true'')]
               [Text 7 (''$560/wk '' @ [CHR 0xB7] @ '' US560,432/mo '')],
             Elem 10 ''i'' [] [Text 11 ''a''],
             Elem 12 ''i'' [] [Text 13 ''b''],
             Elem 14 ''i'' [] [Text 15 ''c'']]],
      detached = [Elem 8 ''span'' [] [Text 9 ''per week'']]\<rparr>"

definition listing_after_second :: dom where
  "listing_after_second =
     \<lparr>document =
        Elem 0 ''html'' []
          [Elem 1 ''body'' [(''data-nzd-converted'', ''true'')]
            [Elem 2 ''span'' [] [Text 3 (''$700/wk '' @ [CHR 0xB7] @ '' US700,790/mo'')],
             Elem 6 ''div'' [(''data-nzd-converted'', ''true'')]
               [Text 7 (''$560/wk '' @ [CHR 0xB7] @ '' US560,432/mo '')],
             Elem 10 ''i'' [] [Text 11 ''a''],
             Elem 12 ''i'' [] [Text 13 ''b''],
             Elem 14 ''i'' [] [Text 15 ''c'']]],
      detached = [Elem 8 ''span'' [] [Text 9 ''per week''], Elem 4 ''span'' [] [Text 5 ''per week'']]\<rparr>"

text \<open>Two blocks with a price each, which the page inserts one after the other, and
  the loop as it stands before.\<close>

definition two_blocks_page :: dom where
  "two_blocks_page =
     \<lparr>document =
        Elem 0 ''html'' []
          [Elem 1 ''body'' []
            [Elem 2 ''div'' [] [Text 3 ''$560 per week''],
             Elem 4 ''div'' [] [Text 5 ''$600 per week'']]],
      detached = []\<rparr>"

definition idle_loop :: loop where
  "idle_loop =
     \<lparr>page = \<lparr>document = Elem 0 ''html'' [] [Elem 1 ''body'' [] []], detached = []\<rparr>,
      exchange = FALLBACK_RATE, timer = None, lastScrollTime = 0, sweepDue = 1500,
      scans = [InitialScan 0]\<rparr>"

text \<open>A string conversion that is right on the two values the examples store.\<close>

definition show_js :: "jsval \<Rightarrow> string" where
  "show_js v = (if v = Num (Fin (3 / 5)) then ''0.6'' else ''1001'')"

section \<open>The converter\<close>





section \<open>The rate provider\<close>




lemma getRate_returns: "\<exists>r st'. getRate T now now' resp st = Inr (r, st')"
  by (auto simp: getRate_def fetchRate_def split: option.splits sum.splits prod.splits)



lemma getCachedRate_truthy: "getCachedRate now st = Some r \<Longrightarrow> truthy (Num r)"
  by (auto simp: getCachedRate_def Let_def split: sum.splits option.splits if_splits)

lemma fetchRate_try_truthy: "fetchRate_try T now resp st = Inr (Some v, st') \<Longrightarrow> truthy v"
  by (auto simp: fetchRate_try_def split: response.splits sum.splits if_splits)

lemma fetchRate_truthy: "fetchRate T now resp st = Inr (v, st') \<Longrightarrow> truthy v"
  by (auto simp: fetchRate_def FALLBACK_RATE_def split: sum.splits prod.splits option.splits dest: fetchRate_try_truthy)

lemma getRate_truthy: "getRate T now now' resp st = Inr (v, st') \<Longrightarrow> truthy v"
  by (auto simp: getRate_def split: option.splits dest: getCachedRate_truthy fetchRate_truthy)

lemma aud_onload_truthy: "truthy r \<Longrightarrow> truthy (aud_onload resp r)"
  by (auto simp: aud_onload_def split: response.splits sum.splits)

lemma exchange_fire_debounce [simp]: "exchange (fire_debounce t s) = exchange s"
  by (simp add: fire_debounce_def split: option.splits)

lemma exchange_fire_sweep [simp]: "exchange (fire_sweep t s) = exchange s"
  by (simp add: fire_sweep_def Let_def split: option.splits)

lemma exchange_advance [simp]: "exchange (advance t s) = exchange s"
proof (induction t s rule: advance.induct)
  case (1 t s)
  show ?case
    apply (subst advance.simps)
    using 1 by (auto split: option.splits)
qed

lemma exchange_handle [simp]: "exchange (handle e s) = exchange s"
  by (cases e) (simp_all add: on_mutations_def debounce_call_def on_scroll_def)

lemma exchange_run [simp]: "exchange (run es s) = exchange s"
  by (induction es arbitrary: s) simp_all

text \<open>
  Claim C8, as the code has it.  The guard on a rate is its truth value, not its sign:
  whatever the cache and the response hold, the rate \<open>getRate\<close> resolves to is truthy,
  so a number among them is neither 0 nor \<open>NaN\<close>; the variable of the AUD scripts stays
  truthy through the response handler; and no callback of the change loop assigns the
  rate it was started with.
\<close>

theorem resolved_rate_truthy_and_fixed:
  "(case getRate T now now' resp st of
      Inl e \<Rightarrow> False
    | Inr (v, st') \<Rightarrow> truthy v \<and> v \<noteq> Num (Fin 0) \<and> v \<noteq> Num NaN) \<and>
   truthy (aud_onload resp (Num (Fin AUD_FALLBACK_RATE))) \<and>
   exchange (run es s) = exchange s \<and> exchange (advance t s) = exchange s"
proof -
  obtain v st' where g: "getRate T now now' resp st = Inr (v, st')"
    using getRate_returns [of T now now' resp st] by blast
  then have "truthy v" by (rule getRate_truthy)
  moreover from this have "v \<noteq> Num (Fin 0) \<and> v \<noteq> Num NaN" by auto
  moreover have "truthy (aud_onload resp (Num (Fin AUD_FALLBACK_RATE)))"
    by (rule aud_onload_truthy) (simp add: AUD_FALLBACK_RATE_def)
  ultimately show ?thesis using g by simp
qed

text \<open>Claim C8 as stated fails: a response whose rate is \<open>-1\<close> is accepted, stored and
  returned, and \<open>-1\<close> is not positive.\<close>

theorem negative_rate_accepted:
  "getRate show_js 1000 1001 (Body (Obj [(''rates'', Obj [(''USD'', Num (Fin (- 1)))])]))
     \<lparr>items = [], denied = False, writes_left = 5\<rparr>
   = Inr (Num (Fin (- 1)),
          \<lparr>items = [(''nzd_usd_rate'', ''1001''), (''nzd_usd_rate_time'', ''1001'')], denied = False, writes_left = 3\<rparr>) \<and>
   \<not> is_positive (Num (Fin (- 1)))"
  by code_simp

section \<open>Parents and ancestors in a well-formed document\<close>

lemma first_some_SomeD: "first_some xs = Some u \<Longrightarrow> Some u \<in> set xs"
  by (induction xs rule: first_some.induct) auto

lemma first_some_None_iff: "first_some xs = None \<longleftrightarrow> (\<forall>x \<in> set xs. x = None)"
  by (induction xs rule: first_some.induct) auto

lemma first_some_map_unique:
  "c \<in> set cs \<Longrightarrow> f c = Some u \<Longrightarrow> (\<forall>c' \<in> set cs. c' \<noteq> c \<longrightarrow> f c' = None) \<Longrightarrow>
   first_some (map f cs) = Some u"
proof (induction cs)
  case Nil
  then show ?case by simp
next
  case (Cons x cs)
  show ?case
  proof (cases "x = c")
    case True
    with Cons.prems show ?thesis by simp
  next
    case False
    with Cons.prems have "f x = None" "c \<in> set cs" by auto
    with Cons show ?thesis by simp
  qed
qed

lemma node_id_in_ids [simp]: "node_id n \<in> ids n"
  by (cases n) (simp_all add: ids_def)

lemma ids_Elem: "ids (Elem j t a cs) = insert j (\<Union> (ids ` set cs))"
  by (auto simp: ids_def)

lemma ids_Text [simp]: "ids (Text j s) = {j}"
  by (simp add: ids_def)

lemma distinct_concat_member:
  "distinct (concat (map f cs)) \<Longrightarrow> c \<in> set cs \<Longrightarrow> distinct (f c)"
  by (induction cs) auto

lemma distinct_concat_disjoint:
  "distinct (concat (map f cs)) \<Longrightarrow> c \<in> set cs \<Longrightarrow> c' \<in> set cs \<Longrightarrow>
   x \<in> set (f c) \<Longrightarrow> x \<in> set (f c') \<Longrightarrow> c = c'"
  by (induction cs) auto

lemma dists_member: "dists ts \<Longrightarrow> c \<in> set ts \<Longrightarrow> dist c"
  unfolding dists_def dist_def map_concat
  using distinct_concat_member [of "\<lambda>c. map node_id (subtree c)" ts c] by (simp add: comp_def)

lemma dists_disjoint:
  "dists ts \<Longrightarrow> c \<in> set ts \<Longrightarrow> c' \<in> set ts \<Longrightarrow> x \<in> ids c \<Longrightarrow> x \<in> ids c' \<Longrightarrow> c = c'"
  unfolding dists_def ids_def map_concat
  using distinct_concat_disjoint [of "\<lambda>c. map node_id (subtree c)" ts c c' x] by (simp add: comp_def)

lemma dist_Elem: "dist (Elem j t a cs) \<longleftrightarrow> j \<notin> \<Union> (ids ` set cs) \<and> dists cs"
  by (auto simp: dist_def dists_def ids_def)

lemma ancestors_in_None_iff: "ancestors_in i n = None \<longleftrightarrow> i \<notin> ids n"
proof (induction n)
  case (Text j s)
  then show ?case by auto
next
  case (Elem j t a cs)
  have "ancestors_in i (Elem j t a cs) = None \<longleftrightarrow> i \<noteq> j \<and> first_some (map (ancestors_in i) cs) = None"
    by (auto split: option.splits)
  also have "\<dots> \<longleftrightarrow> i \<noteq> j \<and> (\<forall>c \<in> set cs. ancestors_in i c = None)"
    by (simp add: first_some_None_iff)
  also have "\<dots> \<longleftrightarrow> i \<noteq> j \<and> (\<forall>c \<in> set cs. i \<notin> ids c)"
    using Elem.IH by auto
  finally show ?case by (auto simp: ids_Elem)
qed

lemma ancestors_in_subset: "ancestors_in i n = Some up \<Longrightarrow> set up \<subseteq> ids n"
proof (induction n arbitrary: up)
  case (Text j s)
  then show ?case by (auto split: if_splits)
next
  case (Elem j t a cs)
  show ?case
  proof (cases "i = j")
    case True
    with Elem.prems show ?thesis by simp
  next
    case False
    with Elem.prems obtain u where u: "first_some (map (ancestors_in i) cs) = Some u" "up = u @ [j]"
      by (auto split: option.splits)
    from first_some_SomeD [OF u(1)] obtain c where c: "c \<in> set cs" "ancestors_in i c = Some u"
      by auto
    with Elem.IH [of c u] have "set u \<subseteq> ids c" by simp
    with c u show ?thesis by (auto simp: ids_Elem)
  qed
qed

lemma first_some_ancestors_in:
  assumes "dists ts" "c \<in> set ts" "i \<in> ids c"
  shows "first_some (map (ancestors_in i) ts) = ancestors_in i c"
proof -
  from assms(3) obtain u where u: "ancestors_in i c = Some u"
    using ancestors_in_None_iff [of i c] by auto
  have "\<forall>c' \<in> set ts. c' \<noteq> c \<longrightarrow> ancestors_in i c' = None"
    using dists_disjoint [OF assms(1) _ assms(2) _ assms(3)] ancestors_in_None_iff by blast
  with assms(2) u show ?thesis
    by (simp add: first_some_map_unique)
qed

lemma ancestors_in_distinct:
  "dist n \<Longrightarrow> ancestors_in i n = Some up \<Longrightarrow> i \<notin> set up \<and> distinct up"
proof (induction n arbitrary: up)
  case (Text j s)
  then show ?case by (auto split: if_splits)
next
  case (Elem j t a cs)
  show ?case
  proof (cases "i = j")
    case True
    with Elem.prems show ?thesis by simp
  next
    case False
    with Elem.prems obtain u where u: "first_some (map (ancestors_in i) cs) = Some u" "up = u @ [j]"
      by (auto split: option.splits)
    from first_some_SomeD [OF u(1)] obtain c where c: "c \<in> set cs" "ancestors_in i c = Some u"
      by auto
    from Elem.prems(1) have d: "dists cs" "j \<notin> \<Union> (ids ` set cs)"
      by (simp_all add: dist_Elem)
    from dists_member [OF d(1) c(1)] Elem.IH [OF c(1) _ c(2)] have "i \<notin> set u \<and> distinct u"
      by simp
    moreover from ancestors_in_subset [OF c(2)] d(2) c(1) have "j \<notin> set u" by auto
    ultimately show ?thesis using u False by simp
  qed
qed

lemma ancestors_in_suffix:
  "dist n \<Longrightarrow> ancestors_in el n = Some up \<Longrightarrow> m \<in> set up \<Longrightarrow>
   \<exists>pre up'. ancestors_in m n = Some up' \<and> up = pre @ m # up'"
proof (induction n arbitrary: up)
  case (Text j s)
  then show ?case by (auto split: if_splits)
next
  case (Elem j t a cs)
  from Elem.prems have ne: "el \<noteq> j" by (auto split: if_splits)
  with Elem.prems obtain u where u: "first_some (map (ancestors_in el) cs) = Some u" "up = u @ [j]"
    by (auto split: option.splits)
  from first_some_SomeD [OF u(1)] obtain c where c: "c \<in> set cs" "ancestors_in el c = Some u"
    by auto
  from Elem.prems(1) have d: "dists cs" "j \<notin> \<Union> (ids ` set cs)"
    by (simp_all add: dist_Elem)
  show ?case
  proof (cases "m = j")
    case True
    with u show ?thesis by simp
  next
    case False
    with Elem.prems(3) u have mu: "m \<in> set u" by simp
    from Elem.IH [OF c(1) dists_member [OF d(1) c(1)] c(2) mu]
    obtain pre up' where p: "ancestors_in m c = Some up'" "u = pre @ m # up'" by blast
    from p(1) have "m \<in> ids c" using ancestors_in_None_iff [of m c] by auto
    from first_some_ancestors_in [OF d(1) c(1) this] p(1)
    have "first_some (map (ancestors_in m) cs) = Some up'" by simp
    with False have "ancestors_in m (Elem j t a cs) = Some (up' @ [j])" by simp
    with p(2) u(2) show ?thesis by simp
  qed
qed

lemma ancestors_suffix:
  assumes "wf_dom d" "m \<in> set (ancestors d el)"
  shows "\<exists>pre. ancestors d el = pre @ m # ancestors d m"
proof -
  obtain up where up: "first_some (map (ancestors_in el) (trees d)) = Some up"
    "ancestors d el = up"
  proof (cases "first_some (map (ancestors_in el) (trees d))")
    case None
    with assms(2) show ?thesis by (simp add: ancestors_def)
  next
    case (Some u)
    with that show ?thesis by (simp add: ancestors_def)
  qed
  from first_some_SomeD [OF up(1)] obtain c where c: "c \<in> set (trees d)" "ancestors_in el c = Some up"
    by auto
  from assms(1) have ds: "dists (trees d)" by (simp add: wf_dom_def)
  from assms(2) up have "m \<in> set up" by simp
  from ancestors_in_suffix [OF dists_member [OF ds c(1)] c(2) this]
  obtain pre up' where p: "ancestors_in m c = Some up'" "up = pre @ m # up'" by blast
  from p(1) have "m \<in> ids c" using ancestors_in_None_iff [of m c] by auto
  from first_some_ancestors_in [OF ds c(1) this] p(1)
  have "ancestors d m = up'" by (simp add: ancestors_def)
  with p(2) up(2) show ?thesis by auto
qed

lemma chain_distinct:
  assumes "wf_dom d"
  shows "distinct (el # ancestors d el)"
proof (cases "first_some (map (ancestors_in el) (trees d))")
  case None
  then show ?thesis by (simp add: ancestors_def)
next
  case (Some up)
  from first_some_SomeD [OF Some] obtain c where c: "c \<in> set (trees d)" "ancestors_in el c = Some up"
    by auto
  from assms have ds: "dists (trees d)" by (simp add: wf_dom_def)
  from ancestors_in_distinct [OF dists_member [OF ds c(1)] c(2)] Some
  show ?thesis by (simp add: ancestors_def)
qed

lemma chain_suffix:
  assumes "wf_dom d" "m \<in> set (el # ancestors d el)"
  shows "\<exists>pre. el # ancestors d el = pre @ m # ancestors d m"
proof (cases "m = el")
  case True
  then show ?thesis by (intro exI [of _ "[]"]) simp
next
  case False
  with assms(2) have "m \<in> set (ancestors d el)" by simp
  from ancestors_suffix [OF assms(1) this] obtain pre where "ancestors d el = pre @ m # ancestors d m"
    by blast
  then show ?thesis by (intro exI [of _ "el # pre"]) simp
qed

lemma marked_visited:
  assumes wf: "wf_dom d"
    and below: "m \<in> set (el # ancestors d el)"
    and scope: "rt \<in> set (m # ancestors d m)"
  shows "m \<in> set (takeWhile (\<lambda>n. Some n \<noteq> parentElement d rt) (el # ancestors d el))"
proof -
  from chain_suffix [OF wf below] obtain A where A: "el # ancestors d el = A @ m # ancestors d m"
    by blast
  from chain_suffix [OF wf scope] obtain B where B: "m # ancestors d m = B @ rt # ancestors d rt"
    by blast
  from A B have C: "el # ancestors d el = (A @ B) @ rt # ancestors d rt" by simp
  from B have mB: "m \<in> set (B @ [rt])"
    by (cases B) auto
  show ?thesis
  proof (cases "ancestors d rt")
    case Nil
    then have "parentElement d rt = None" by (simp add: parentElement_def)
    then have "takeWhile (\<lambda>n. Some n \<noteq> parentElement d rt) (el # ancestors d el) = el # ancestors d el"
      by simp
    with below show ?thesis by simp
  next
    case (Cons p R)
    then have pe: "parentElement d rt = Some p" by (simp add: parentElement_def)
    from chain_distinct [OF wf, of el] C Cons have "p \<notin> set (A @ B @ [rt])"
      by auto
    then have "takeWhile (\<lambda>n. Some n \<noteq> parentElement d rt) ((A @ B @ [rt]) @ p # R) = A @ B @ [rt]"
      unfolding pe by (intro takeWhile_append2 [THEN trans]) auto
    with C Cons mB show ?thesis by auto
  qed
qed

section \<open>The processed marker\<close>

lemma ancestors_parent:
  assumes "wf_dom d" "ancestors d tn = p # R"
  shows "ancestors d p = R"
proof -
  from assms(2) have "p \<in> set (ancestors d tn)" by simp
  from ancestors_suffix [OF assms(1) this] assms(2)
  obtain pre where pre: "p # R = pre @ p # ancestors d p" by auto
  from chain_distinct [OF assms(1), of tn] assms(2) have dp: "distinct (p # R)" by simp
  show ?thesis
  proof (cases pre)
    case Nil
    with pre show ?thesis by simp
  next
    case (Cons x pre')
    with pre have "x = p" "R = pre' @ p # ancestors d p" by simp_all
    with dp show ?thesis by simp
  qed
qed

lemma hasConvertedAncestor_marked:
  assumes "wf_dom d" "is_converted d m" "m \<in> set (el # ancestors d el)" "rt \<in> set (m # ancestors d m)"
  shows "hasConvertedAncestor d (Some el) (parentElement d rt)"
  using marked_visited [OF assms(1) assms(3) assms(4)] assms(2)
  by (auto simp: hasConvertedAncestor_def list_ex_iff)

lemma hasConvertedAncestor_marked_parent:
  assumes "wf_dom d" "is_converted d m" "m \<in> set (ancestors d tn)" "rt \<in> set (m # ancestors d m)"
  shows "hasConvertedAncestor d (parentElement d tn) (parentElement d rt)"
proof -
  from assms(3) obtain p R where pR: "ancestors d tn = p # R"
    by (cases "ancestors d tn") auto
  then have pe: "parentElement d tn = Some p" by (simp add: parentElement_def)
  from ancestors_parent [OF assms(1) pR] pR assms(3) have "m \<in> set (p # ancestors d p)" by simp
  from hasConvertedAncestor_marked [OF assms(1) assms(2) this assms(4)] pe show ?thesis by simp
qed

text \<open>
  Claim C4, as the code has it.  Let \<open>m\<close> be a marked element of a well-formed page
  that lies in the scanned subtree (\<open>m\<close> is the scan root or below it).  Then the
  split-element pass, examining \<open>m\<close> or an element below \<open>m\<close>, and the single-text-node
  pass, examining a text node below \<open>m\<close>, leave the page as it is: nothing below \<open>m\<close>
  becomes an anchor.  The fast path passes over a container that carries the marker
  itself.
\<close>

theorem marked_ancestor_protects_within_scan:
  assumes "wf_dom d" and "is_converted d m" and "rt \<in> set (m # ancestors d m)"
  shows "(m \<in> set (el # ancestors d el) \<longrightarrow> pass2_step rate rt el d = d) \<and>
         (m \<in> set (ancestors d tn) \<longrightarrow> pass1_step rate rt tn d = d) \<and>
         fast_step rate m d = d"
proof (intro conjI impI)
  assume "m \<in> set (el # ancestors d el)"
  from hasConvertedAncestor_marked [OF assms(1) assms(2) this assms(3)]
  show "pass2_step rate rt el d = d" by (simp add: pass2_step_def)
next
  assume "m \<in> set (ancestors d tn)"
  from hasConvertedAncestor_marked_parent [OF assms(1) assms(2) this assms(3)]
  show "pass1_step rate rt tn d = d" by (simp add: pass1_step_def split: option.splits)
next
  from assms(2) show "fast_step rate m d = d"
    by (auto simp: fast_step_def is_converted_def split: option.splits)
qed

text \<open>C4 on the page \<open>marked_block_page\<close>, scanned from the body: the block 2 is marked,
  the paragraph 10 and the text node 9 lie below it and match, and are passed over.\<close>

theorem marked_ancestor_protects_witness:
  "wf_dom marked_block_page \<and> is_converted marked_block_page 2 \<and>
   1 \<in> set (2 # ancestors marked_block_page 2) \<and>
   2 \<in> set (10 # ancestors marked_block_page 10) \<and>
   2 \<in> set (ancestors marked_block_page 9) \<and>
   pass2_step FALLBACK_RATE 1 10 marked_block_page = marked_block_page \<and>
   pass1_step FALLBACK_RATE 1 9 marked_block_page = marked_block_page \<and>
   fast_step FALLBACK_RATE 2 marked_block_page = marked_block_page"
proof -
  have h: "wf_dom marked_block_page" "is_converted marked_block_page 2"
    "1 \<in> set (2 # ancestors marked_block_page 2)"
    "2 \<in> set (10 # ancestors marked_block_page 10)"
    "2 \<in> set (ancestors marked_block_page 9)"
    by code_simp+
  from marked_ancestor_protects_within_scan [OF h(1) h(2) h(3), of 10 FALLBACK_RATE 9] h
  show ?thesis by simp
qed

text \<open>
  Claim C4 as stated fails.  On \<open>marked_block_page\<close> the container 4 lies below the
  marked block 2; a pass over the body rewrites its text node 5, removes its child 6 and
  marks it, by the fast path.  And a pass over the paragraph 8, which lies below the
  marked block as well, rewrites the text node 9 and marks the paragraph: the marker
  above the scan root is not looked at.
\<close>

theorem fast_path_ignores_marked_ancestor:
  "is_converted marked_block_page 2 \<and> 2 \<in> set (ancestors marked_block_page 4) \<and>
   transformSubtree FALLBACK_RATE 1 marked_block_page =
     \<lparr>document =
        Elem 0 ''html'' []
          [Elem 1 ''body'' []
            [Elem 2 ''div'' [(''data-nzd-converted'', ''true'')]
              [Text 3 ''Rent'',
               Elem 4 ''div'' [(''data-test'', ''price-display__price-method''), (''data-nzd-converted'', ''true'')]
                 [Text 5 (''$560/wk '' @ [CHR 0xB7] @ '' US$1,432/mo '')],
               Elem 8 ''p'' [] [Text 9 ''$700 per week''],
               Elem 10 ''p'' [] [Text 11 ''$800 '', Elem 12 ''span'' [] [Text 13 ''per week'']]]]],
      detached = [Elem 6 ''span'' [] [Text 7 ''per week'']]\<rparr> \<and>
   2 \<in> set (ancestors marked_block_page 8) \<and>
   transformSubtree FALLBACK_RATE 8 marked_block_page =
     \<lparr>document =
        Elem 0 ''html'' []
          [Elem 1 ''body'' []
            [Elem 2 ''div'' [(''data-nzd-converted'', ''true'')]
              [Text 3 ''Rent'',
               Elem 4 ''div'' [(''data-test'', ''price-display__price-method'')]
                 [Text 5 ''$560 '', Elem 6 ''span'' [] [Text 7 ''per week'']],
               Elem 8 ''p'' [(''data-nzd-converted'', ''true'')]
                 [Text 9 (''$700/wk '' @ [CHR 0xB7] @ '' US$1,790/mo'')],
               Elem 10 ''p'' [] [Text 11 ''$800 '', Elem 12 ''span'' [] [Text 13 ''per week'']]]]],
      detached = []\<rparr>"
  by code_simp

section \<open>The bound on text nodes\<close>



section \<open>Matching and parsing amounts\<close>

lemma digit_not_ws: "is_digit c \<Longrightarrow> \<not> is_ws c"
  by (auto simp: is_digit_def is_ws_def)

lemma digit_not_sign: "is_digit c \<Longrightarrow> c \<noteq> CHR ''-'' \<and> c \<noteq> CHR ''+''"
  by (auto simp: is_digit_def)

lemma strip_commas_digits: "list_all is_dc g \<Longrightarrow> list_all is_digit (strip_commas g)"
  by (induction g) (auto simp: strip_commas_def is_dc_def)

lemma strip_commas_empty_iff: "strip_commas g = [] \<longleftrightarrow> list_all (\<lambda>c. c = CHR '','') g"
  by (induction g) (auto simp: strip_commas_def)

lemma parseInt10_digits:
  assumes "list_all is_digit ds"
  shows "parseInt10 ds = (if ds = [] then None else Some (int (digits_val ds)))"
proof (cases ds)
  case Nil
  then show ?thesis by (simp add: parseInt10_def)
next
  case (Cons c r)
  with assms have c: "is_digit c" and all: "\<forall>x \<in> set ds. is_digit x"
    by (simp_all add: list_all_iff)
  from c Cons have dw: "dropWhile is_ws ds = ds"
    by (simp add: digit_not_ws)
  from all have tw: "takeWhile is_digit ds = ds"
    by simp
  from c Cons have hd: "hd ds \<noteq> CHR ''-''" "hd ds \<noteq> CHR ''+''"
    using digit_not_sign [of c] by simp_all
  show ?thesis
    unfolding parseInt10_def Let_def dw using hd tw Cons by simp
qed

lemma parse_group:
  "list_all is_dc g \<Longrightarrow>
   parseInt10 (strip_commas g) =
     (if list_all (\<lambda>c. c = CHR '','') g then None else Some (int (digits_val (strip_commas g))))"
  by (simp add: parseInt10_digits strip_commas_digits strip_commas_empty_iff)

lemma search_found:
  "search m pre s = Some (p, w, g, post) \<Longrightarrow>
   \<exists>k \<le> length s. p = pre @ take k s \<and> m (drop k s) = Some (w, g, post) \<and>
                  (\<forall>j < k. m (drop j s) = None)"
proof (induction s arbitrary: pre)
  case Nil
  then show ?case by (auto split: option.splits)
next
  case (Cons c r)
  show ?case
  proof (cases "m (c # r)")
    case (Some x)
    with Cons.prems have "m (c # r) = Some (w, g, post)" "p = pre" by auto
    then show ?thesis by (intro exI [of _ 0]) simp
  next
    case None
    with Cons.prems have "search m (pre @ [c]) r = Some (p, w, g, post)" by simp
    from Cons.IH [OF this] obtain k where k: "k \<le> length r" "p = (pre @ [c]) @ take k r"
      "m (drop k r) = Some (w, g, post)" "\<forall>j < k. m (drop j r) = None" by blast
    have "\<forall>j < Suc k. m (drop j (c # r)) = None"
    proof (intro allI impI)
      fix j assume "j < Suc k"
      then show "m (drop j (c # r)) = None"
        using None k(4) by (cases j) auto
    qed
    with k show ?thesis by (intro exI [of _ "Suc k"]) simp
  qed
qed

lemma amount_at_shape:
  "amount_at s = Some (w, g, post) \<Longrightarrow>
   s = w @ post \<and> w = CHR ''$'' # g \<and> g \<noteq> [] \<and> list_all is_dc g \<and> (post = [] \<or> \<not> is_dc (hd post))"
  by (auto simp: amount_at_def Let_def list_all_iff hd_dropWhile split: list.splits if_splits
      dest: set_takeWhileD)

lemma price_at_shape:
  "price_at s = Some (w, g, post) \<Longrightarrow> g \<noteq> [] \<and> list_all is_dc g"
  by (auto simp: price_at_def Let_def list_all_iff split: list.splits if_splits dest: set_takeWhileD)

lemma PRICE_REGEX_group:
  "PRICE_REGEX s = Some (p, w, g, post) \<Longrightarrow> g \<noteq> [] \<and> list_all is_dc g"
  unfolding PRICE_REGEX_def using search_found [of price_at "[]" s p w g post] price_at_shape by blast

lemma PRICE_AMOUNT_REGEX_first:
  assumes "PRICE_AMOUNT_REGEX s = Some (p, w, g, post)"
  shows "s = p @ w @ post \<and> w = CHR ''$'' # g \<and> g \<noteq> [] \<and> list_all is_dc g \<and>
         (post = [] \<or> \<not> is_dc (hd post)) \<and>
         (\<forall>j < length p. amount_at (drop j s) = None)"
proof -
  from assms search_found [of amount_at "[]" s p w g post]
  obtain k where k: "k \<le> length s" "p = take k s" "amount_at (drop k s) = Some (w, g, post)"
    "\<forall>j < k. amount_at (drop j s) = None"
    by (auto simp: PRICE_AMOUNT_REGEX_def)
  from amount_at_shape [OF k(3)] have sh: "drop k s = w @ post" "w = CHR ''$'' # g" "g \<noteq> []"
    "list_all is_dc g" "post = [] \<or> \<not> is_dc (hd post)" by simp_all
  from k(1,2) have "length p = k" by simp
  moreover from k(2) sh(1) have "s = p @ w @ post"
    by (metis append_take_drop_id)
  ultimately show ?thesis using sh k(4) by simp
qed

section \<open>Amount normalization\<close>

text \<open>
  Claim C6, as the code has it.  Group 1 of either price pattern is a run of digits
  and commas; normalization removes the commas and reads what is left as a decimal
  integer.  The result is \<open>NaN\<close> exactly when nothing is left, that is when the group
  has no digit, and then each of the three layers passes the candidate over and leaves
  the page as it is.  Every number is accepted, 0 included: the guard is \<open>isNaN\<close>.
\<close>

theorem amount_normalization:
  "(PRICE_REGEX s = Some (p, w, g, post) \<or> PRICE_AMOUNT_REGEX s = Some (p, w, g, post) \<longrightarrow>
      parseInt10 (strip_commas g) =
        (if list_all (\<lambda>c. c = CHR '','') g then None
         else Some (int (digits_val (strip_commas g))))) \<and>
   (find_node d tn = Some n \<and> PRICE_REGEX (textContent n) = Some (p, w, g, post) \<and>
    list_all (\<lambda>c. c = CHR '','') g \<longrightarrow>
      pass1_step rate rt tn d = d) \<and>
   (find_node d el = Some n \<and>
    find (\<lambda>t. regex_test PRICE_AMOUNT_REGEX (textContent t)) (filter is_text (descendants n)) = Some a \<and>
    PRICE_AMOUNT_REGEX (textContent a) = Some (p, w, g, post) \<and>
    list_all (\<lambda>c. c = CHR '','') g \<longrightarrow>
      pass2_step rate rt el d = d) \<and>
   (find_node d el = Some n \<and>
    find (\<lambda>c. is_text c \<and> regex_test PRICE_AMOUNT_REGEX (textContent c)) (childNodes n) = Some a \<and>
    PRICE_AMOUNT_REGEX (textContent a) = Some (p, w, g, post) \<and>
    list_all (\<lambda>c. c = CHR '','') g \<longrightarrow>
      fast_step rate el d = d)"
proof (intro conjI impI)
  assume "PRICE_REGEX s = Some (p, w, g, post) \<or> PRICE_AMOUNT_REGEX s = Some (p, w, g, post)"
  then have "list_all is_dc g"
    using PRICE_REGEX_group PRICE_AMOUNT_REGEX_first by blast
  then show "parseInt10 (strip_commas g) =
      (if list_all (\<lambda>c. c = CHR '','') g then None else Some (int (digits_val (strip_commas g))))"
    by (rule parse_group)
next
  assume a: "find_node d tn = Some n \<and> PRICE_REGEX (textContent n) = Some (p, w, g, post) \<and>
    list_all (\<lambda>c. c = CHR '','') g"
  then have "parseInt10 (strip_commas g) = None"
    using parse_group [of g] PRICE_REGEX_group [of "textContent n" p w g post] by simp
  with a show "pass1_step rate rt tn d = d"
    by (simp add: pass1_step_def)
next
  assume a: "find_node d el = Some n \<and>
    find (\<lambda>t. regex_test PRICE_AMOUNT_REGEX (textContent t)) (filter is_text (descendants n)) = Some a \<and>
    PRICE_AMOUNT_REGEX (textContent a) = Some (p, w, g, post) \<and>
    list_all (\<lambda>c. c = CHR '','') g"
  then have "parseInt10 (strip_commas g) = None"
    using parse_group [of g] PRICE_AMOUNT_REGEX_first [of "textContent a" p w g post] by simp
  with a show "pass2_step rate rt el d = d"
    by (simp add: pass2_step_def Let_def)
next
  assume a: "find_node d el = Some n \<and>
    find (\<lambda>c. is_text c \<and> regex_test PRICE_AMOUNT_REGEX (textContent c)) (childNodes n) = Some a \<and>
    PRICE_AMOUNT_REGEX (textContent a) = Some (p, w, g, post) \<and>
    list_all (\<lambda>c. c = CHR '','') g"
  then have "parseInt10 (strip_commas g) = None"
    using parse_group [of g] PRICE_AMOUNT_REGEX_first [of "textContent a" p w g post] by simp
  with a show "fast_step rate el d = d"
    by (simp add: fast_step_def)
qed

text \<open>C6 on examples: \<open>$1,200 per week\<close> gives 1200, and on \<open>comma_page\<close> the three
  sites whose amount is a lone comma are passed over, each by its layer.\<close>

theorem amount_normalization_witness:
  "PRICE_REGEX ''$1,200 per week'' = Some ([], ''$1,200 per week'', ''1,200'', []) \<and>
   parseInt10 (strip_commas ''1,200'') = Some 1200 \<and>
   PRICE_REGEX ''$, per week'' = Some ([], ''$, per week'', '','', []) \<and>
   parseInt10 (strip_commas '','') = None \<and>
   pass1_step FALLBACK_RATE 1 3 comma_page = comma_page \<and>
   pass2_step FALLBACK_RATE 1 4 comma_page = comma_page \<and>
   fast_step FALLBACK_RATE 8 comma_page = comma_page"
proof -
  have m1: "PRICE_REGEX ''$1,200 per week'' = Some ([], ''$1,200 per week'', ''1,200'', [])"
    by code_simp
  have v1: "\<not> list_all (\<lambda>c. c = CHR '','') ''1,200''" "int (digits_val (strip_commas ''1,200'')) = 1200"
    by code_simp+
  have m2: "PRICE_REGEX ''$, per week'' = Some ([], ''$, per week'', '','', [])"
    by code_simp
  have v2: "list_all (\<lambda>c. c = CHR '','') '',''" by code_simp
  have h1: "find_node comma_page 3 = Some (Text 3 ''$, per week'') \<and>
      PRICE_REGEX (textContent (Text 3 ''$, per week'')) = Some ([], ''$, per week'', '','', []) \<and>
      list_all (\<lambda>c. c = CHR '','') '',''"
    by code_simp
  have h2: "find_node comma_page 4 = Some (Elem 4 ''div'' [] [Text 5 ''$,'', Elem 6 ''span'' [] [Text 7 ''per week'']]) \<and>
      find (\<lambda>t. regex_test PRICE_AMOUNT_REGEX (textContent t))
        (filter is_text (descendants (Elem 4 ''div'' [] [Text 5 ''$,'', Elem 6 ''span'' [] [Text 7 ''per week'']])))
        = Some (Text 5 ''$,'') \<and>
      PRICE_AMOUNT_REGEX (textContent (Text 5 ''$,'')) = Some ([], ''$,'', '','', []) \<and>
      list_all (\<lambda>c. c = CHR '','') '',''"
    by code_simp
  have h3: "find_node comma_page 8 =
        Some (Elem 8 ''div'' [(''data-test'', ''price-display__price-method'')]
               [Text 9 ''$, '', Elem 10 ''span'' [] [Text 11 ''per week'']]) \<and>
      find (\<lambda>c. is_text c \<and> regex_test PRICE_AMOUNT_REGEX (textContent c))
        (childNodes (Elem 8 ''div'' [(''data-test'', ''price-display__price-method'')]
               [Text 9 ''$, '', Elem 10 ''span'' [] [Text 11 ''per week'']]))
        = Some (Text 9 ''$, '') \<and>
      PRICE_AMOUNT_REGEX (textContent (Text 9 ''$, '')) = Some ([], ''$,'', '','', '' '') \<and>
      list_all (\<lambda>c. c = CHR '','') '',''"
    by code_simp
  note T = amount_normalization
  from T [where s = "''$1,200 per week''" and p = "[]" and w = "''$1,200 per week''"
            and g = "''1,200''" and post = "[]"] m1 v1
  have a: "parseInt10 (strip_commas ''1,200'') = Some 1200" by simp
  from T [where s = "''$, per week''" and p = "[]" and w = "''$, per week''"
            and g = "'',''" and post = "[]"] m2 v2
  have b: "parseInt10 (strip_commas '','') = None" by simp
  from T [where d = comma_page and tn = 3 and n = "Text 3 ''$, per week''" and p = "[]"
            and w = "''$, per week''" and g = "'',''" and post = "[]" and rate = FALLBACK_RATE and rt = 1] h1
  have c: "pass1_step FALLBACK_RATE 1 3 comma_page = comma_page" by blast
  from T [where d = comma_page and el = 4
            and n = "Elem 4 ''div'' [] [Text 5 ''$,'', Elem 6 ''span'' [] [Text 7 ''per week'']]"
            and a = "Text 5 ''$,''" and p = "[]" and w = "''$,''" and g = "'',''" and post = "[]"
            and rate = FALLBACK_RATE and rt = 1] h2
  have d: "pass2_step FALLBACK_RATE 1 4 comma_page = comma_page" by blast
  from T [where d = comma_page and el = 8
            and n = "Elem 8 ''div'' [(''data-test'', ''price-display__price-method'')]
               [Text 9 ''$, '', Elem 10 ''span'' [] [Text 11 ''per week'']]"
            and a = "Text 9 ''$, ''" and p = "[]" and w = "''$,''" and g = "'',''" and post = "'' ''"
            and rate = FALLBACK_RATE] h3
  have e: "fast_step FALLBACK_RATE 8 comma_page = comma_page" by blast
  from m1 m2 a b c d e show ?thesis by simp
qed

text \<open>Claim C6 as stated fails: an amount of 0 is parsed to the number 0, which is not
  \<open>NaN\<close>, and the price is rewritten and its element marked.\<close>

theorem zero_amount_is_converted:
  "parseInt10 (strip_commas ''0'') = Some 0 \<and>
   transformSubtree FALLBACK_RATE 1 zero_page =
     \<lparr>document =
        Elem 0 ''html'' []
          [Elem 1 ''body'' []
            [Elem 2 ''p'' [(''data-nzd-converted'', ''true'')]
              [Text 3 (''$0/wk '' @ [CHR 0xB7] @ '' US$0/mo'')]]],
      detached = []\<rparr>"
  by code_simp

section \<open>The first amount\<close>

lemma parseFloat_digits_group:
  "parseFloat_digits (strip_commas g) =
     (if list_all (\<lambda>c. c = CHR '','') g then None else Some (int (digits_val (strip_commas g))))"
  by (simp add: parseFloat_digits_def strip_commas_empty_iff)

text \<open>
  Claim C10, as the code has it.  The match of the amount pattern is the leftmost one
  in the text searched: the text splits into what precedes the match, the match (a
  dollar sign and the longest run of digits and commas) and the rest, and the pattern
  matches at no earlier position.  The AUD scripts search the trimmed text content of
  the candidate and insert a label for that amount if it is a number above 50, and
  nothing otherwise; the fast path of the NZD script searches the first bare text child
  that holds an amount and rewrites it with that amount if it is a number.  In both the
  outcome depends on the text only through group 1 of the first match: what follows it
  is ignored.
\<close>

theorem first_amount_is_used:
  "(PRICE_AMOUNT_REGEX s = Some (p, w, g, post) \<longrightarrow>
      s = p @ w @ post \<and> w = CHR ''$'' # g \<and> g \<noteq> [] \<and> list_all is_dc g \<and>
      (post = [] \<or> \<not> is_dc (hd post)) \<and>
      (\<forall>j < length p. amount_at (drop j s) = None)) \<and>
   (find_node d el = Some n \<and> PRICE_AMOUNT_REGEX (trim (textContent n)) = Some (p, w, g, post) \<longrightarrow>
      convert_candidate amount audToUsdRate el d =
        (if \<not> list_all (\<lambda>c. c = CHR '','') g \<and> 50 < int (digits_val (strip_commas g))
         then insertConversionLabel amount audToUsdRate el (int (digits_val (strip_commas g))) d
         else Inr d)) \<and>
   (find_node d el = Some n \<and> \<not> dataset_truthy (attributes n) CONVERTED \<and>
    find (\<lambda>c. is_text c \<and> regex_test PRICE_AMOUNT_REGEX (textContent c)) (childNodes n) = Some a \<and>
    PRICE_AMOUNT_REGEX (textContent a) = Some (p, w, g, post) \<longrightarrow>
      fast_step rate el d =
        (if \<not> list_all (\<lambda>c. c = CHR '','') g
         then remove_qualifiers el
                (set_text (node_id a)
                   (replacement_text (int (digits_val (strip_commas g)))
                      (nzdPerWeekToUsdPerMonth (int (digits_val (strip_commas g))) rate) @ '' '')
                   (set_attr el CONVERTED ''true'' d))
         else d))"
proof -
  have 1: "PRICE_AMOUNT_REGEX s = Some (p, w, g, post) \<longrightarrow>
      s = p @ w @ post \<and> w = CHR ''$'' # g \<and> g \<noteq> [] \<and> list_all is_dc g \<and>
      (post = [] \<or> \<not> is_dc (hd post)) \<and>
      (\<forall>j < length p. amount_at (drop j s) = None)"
    using PRICE_AMOUNT_REGEX_first [of s p w g post] by blast
  have 2: "find_node d el = Some n \<and> PRICE_AMOUNT_REGEX (trim (textContent n)) = Some (p, w, g, post) \<longrightarrow>
      convert_candidate amount audToUsdRate el d =
        (if \<not> list_all (\<lambda>c. c = CHR '','') g \<and> 50 < int (digits_val (strip_commas g))
         then insertConversionLabel amount audToUsdRate el (int (digits_val (strip_commas g))) d
         else Inr d)"
    by (simp add: convert_candidate_def parseFloat_digits_group)
  have 3: "find_node d el = Some n \<and> \<not> dataset_truthy (attributes n) CONVERTED \<and>
    find (\<lambda>c. is_text c \<and> regex_test PRICE_AMOUNT_REGEX (textContent c)) (childNodes n) = Some a \<and>
    PRICE_AMOUNT_REGEX (textContent a) = Some (p, w, g, post) \<longrightarrow>
      fast_step rate el d =
        (if \<not> list_all (\<lambda>c. c = CHR '','') g
         then remove_qualifiers el
                (set_text (node_id a)
                   (replacement_text (int (digits_val (strip_commas g)))
                      (nzdPerWeekToUsdPerMonth (int (digits_val (strip_commas g))) rate) @ '' '')
                   (set_attr el CONVERTED ''true'' d))
         else d)"
  proof
    assume a: "find_node d el = Some n \<and> \<not> dataset_truthy (attributes n) CONVERTED \<and>
      find (\<lambda>c. is_text c \<and> regex_test PRICE_AMOUNT_REGEX (textContent c)) (childNodes n) = Some a \<and>
      PRICE_AMOUNT_REGEX (textContent a) = Some (p, w, g, post)"
    then have "parseInt10 (strip_commas g) =
        (if list_all (\<lambda>c. c = CHR '','') g then None else Some (int (digits_val (strip_commas g))))"
      using parse_group [of g] PRICE_AMOUNT_REGEX_first [of "textContent a" p w g post] by simp
    with a show "fast_step rate el d =
        (if \<not> list_all (\<lambda>c. c = CHR '','') g
         then remove_qualifiers el
                (set_text (node_id a)
                   (replacement_text (int (digits_val (strip_commas g)))
                      (nzdPerWeekToUsdPerMonth (int (digits_val (strip_commas g))) rate) @ '' '')
                   (set_attr el CONVERTED ''true'' d))
         else d)"
      by (simp add: fast_step_def Let_def)
  qed
  from 1 2 3 show ?thesis by blast
qed

text \<open>C10 on a range: of \<open>$570 - $620\<close> the amount 570 is read.  On \<open>range_page\<close> the
  AUD script labels the element with the monthly value of 570, and on
  \<open>sidebar_range_page\<close> the fast path rewrites the text with it.\<close>

theorem first_amount_is_used_witness:
  "PRICE_AMOUNT_REGEX ''$570 - $620'' = Some ([], ''$570'', ''570'', '' - $620'') \<and>
   amount_at ''$570 - $620'' \<noteq> None \<and>
   convert_candidate label_amount AUD_FALLBACK_RATE 2 range_page =
     insertConversionLabel label_amount AUD_FALLBACK_RATE 2 570 range_page \<and>
   fast_step FALLBACK_RATE 2 sidebar_range_page =
     \<lparr>document =
        Elem 0 ''html'' []
          [Elem 1 ''body'' []
            [Elem 2 ''div'' [(''data-test'', ''price-display__price-method''), (''data-nzd-converted'', ''true'')]
               [Text 3 (''$570/wk '' @ [CHR 0xB7] @ '' US$1,457/mo '')]]],
      detached = [Elem 4 ''span'' [] [Text 5 ''per week'']]\<rparr>"
proof -
  have m: "PRICE_AMOUNT_REGEX ''$570 - $620'' = Some ([], ''$570'', ''570'', '' - $620'')"
    by code_simp
  have v: "\<not> list_all (\<lambda>c. c = CHR '','') ''570''" "int (digits_val (strip_commas ''570'')) = 570"
    by code_simp+
  have h2: "find_node range_page 2 = Some (Elem 2 ''span'' [(''class'', ''property-price'')] [Text 3 ''$570 - $620 per week'']) \<and>
      PRICE_AMOUNT_REGEX (trim (textContent (Elem 2 ''span'' [(''class'', ''property-price'')] [Text 3 ''$570 - $620 per week''])))
        = Some ([], ''$570'', ''570'', '' - $620 per week'')"
    by code_simp
  have h3: "find_node sidebar_range_page 2 =
        Some (Elem 2 ''div'' [(''data-test'', ''price-display__price-method'')]
               [Text 3 ''$570 - $620 '', Elem 4 ''span'' [] [Text 5 ''per week'']]) \<and>
      \<not> dataset_truthy (attributes (Elem 2 ''div'' [(''data-test'', ''price-display__price-method'')]
               [Text 3 ''$570 - $620 '', Elem 4 ''span'' [] [Text 5 ''per week'']])) CONVERTED \<and>
      find (\<lambda>c. is_text c \<and> regex_test PRICE_AMOUNT_REGEX (textContent c))
        (childNodes (Elem 2 ''div'' [(''data-test'', ''price-display__price-method'')]
               [Text 3 ''$570 - $620 '', Elem 4 ''span'' [] [Text 5 ''per week'']]))
        = Some (Text 3 ''$570 - $620 '') \<and>
      PRICE_AMOUNT_REGEX (textContent (Text 3 ''$570 - $620 '')) = Some ([], ''$570'', ''570'', '' - $620 '')"
    by code_simp
  have r: "remove_qualifiers 2
          (set_text (node_id (Text 3 ''$570 - $620 ''))
             (replacement_text 570 (nzdPerWeekToUsdPerMonth 570 FALLBACK_RATE) @ '' '')
             (set_attr 2 CONVERTED ''true'' sidebar_range_page)) =
     \<lparr>document =
        Elem 0 ''html'' []
          [Elem 1 ''body'' []
            [Elem 2 ''div'' [(''data-test'', ''price-display__price-method''), (''data-nzd-converted'', ''true'')]
               [Text 3 (''$570/wk '' @ [CHR 0xB7] @ '' US$1,457/mo '')]]],
      detached = [Elem 4 ''span'' [] [Text 5 ''per week'']]\<rparr>"
    by code_simp
  note T = first_amount_is_used
  have a': "amount_at ''$570 - $620'' \<noteq> None" by code_simp
  from T [where d = range_page and el = 2
            and n = "Elem 2 ''span'' [(''class'', ''property-price'')] [Text 3 ''$570 - $620 per week'']"
            and p = "[]" and w = "''$570''" and g = "''570''" and post = "'' - $620 per week''"
            and amount = label_amount and audToUsdRate = AUD_FALLBACK_RATE] h2 v
  have b: "convert_candidate label_amount AUD_FALLBACK_RATE 2 range_page =
     insertConversionLabel label_amount AUD_FALLBACK_RATE 2 570 range_page" by simp
  from T [where d = sidebar_range_page and el = 2
            and n = "Elem 2 ''div'' [(''data-test'', ''price-display__price-method'')]
               [Text 3 ''$570 - $620 '', Elem 4 ''span'' [] [Text 5 ''per week'']]"
            and a = "Text 3 ''$570 - $620 ''"
            and p = "[]" and w = "''$570''" and g = "''570''" and post = "'' - $620 ''"
            and rate = FALLBACK_RATE] h3 v
  have c: "fast_step FALLBACK_RATE 2 sidebar_range_page =
        remove_qualifiers 2
          (set_text (node_id (Text 3 ''$570 - $620 ''))
             (replacement_text 570 (nzdPerWeekToUsdPerMonth 570 FALLBACK_RATE) @ '' '')
             (set_attr 2 CONVERTED ''true'' sidebar_range_page))" by simp
  from m a' b c r show ?thesis by simp
qed

text \<open>
  Claim C10 as stated fails twice.  On \<open>low_range_page\<close> the text \<open>$20 - $620 per week\<close>
  holds two amounts and the AUD scripts convert neither, the first being below the
  bound.  On \<open>sidebar_nested_page\<close> the text content of the container begins with
  \<open>$100\<close>, inside a child element, and the fast path converts the 560 of the bare text
  child.
\<close>

theorem first_amount_not_always_converted:
  "convertPricesOnPage AUD_FALLBACK_RATE low_range_page = Inr low_range_page \<and>
   convertPricesOnPage_part1 AUD_FALLBACK_RATE low_range_page = Inr low_range_page \<and>
   PRICE_AMOUNT_REGEX (concat (map textContent (text_nodes_under sidebar_nested_page 2)))
     = Some ([], ''$100'', ''100'', ''$560 per week'') \<and>
   transformSubtree FALLBACK_RATE 1 sidebar_nested_page =
     \<lparr>document =
        Elem 0 ''html'' []
          [Elem 1 ''body'' []
            [Elem 2 ''div'' [(''data-test'', ''price-display__price-method''), (''data-nzd-converted'', ''true'')]
               [Elem 3 ''span'' [] [Text 4 ''$100''],
                Text 5 (''$560/wk '' @ [CHR 0xB7] @ '' US$1,432/mo '')]]],
      detached = [Elem 6 ''span'' [] [Text 7 ''per week'']]\<rparr>"
  by code_simp

section \<open>Two passes in succession\<close>

text \<open>
  Claim C1 fails on the NZD script.  On \<open>listing_page\<close> the first pass over the body
  leaves the body alone, which has seven text nodes, and converts the widget 6, whose
  qualifier element it removes.  That leaves the body with six text nodes, so the
  second pass over the unchanged tree takes the body as anchor: it marks it, rewrites
  the text node 3 and removes the element 4.  (The split-element pass hands its
  replacement to \<open>replace\<close> as a string, where \<open>$1\<close> stands for group 1: hence
  \<open>US560,432\<close> for \<open>US$1,432\<close>.)
\<close>

theorem second_pass_mutates:
  "transformSubtree FALLBACK_RATE 1 listing_page = listing_after_first \<and>
   transformSubtree FALLBACK_RATE 1 listing_after_first = listing_after_second \<and>
   listing_after_second \<noteq> listing_after_first \<and>
   \<not> is_converted listing_after_first 1 \<and> is_converted listing_after_second 1"
  by code_simp

section \<open>The debounced handler\<close>

lemma debounced_scans_Cons [simp]:
  "debounced_scans (s\<lparr>scans := DebouncedScan t r # scans s\<rparr>) = (t, r) # debounced_scans s"
  "debounced_scans (s\<lparr>scans := SweepScan t # scans s\<rparr>) = debounced_scans s"
  by (simp_all add: debounced_scans_def)

lemma debounced_scans_upd [simp]:
  "debounced_scans (s\<lparr>page := d\<rparr>) = debounced_scans s"
  "debounced_scans (s\<lparr>timer := x\<rparr>) = debounced_scans s"
  "debounced_scans (s\<lparr>sweepDue := y\<rparr>) = debounced_scans s"
  "debounced_scans (s\<lparr>lastScrollTime := z\<rparr>) = debounced_scans s"
  by (simp_all add: debounced_scans_def)

lemma fire_sweep_timer [simp]: "timer (fire_sweep t s) = timer s"
  by (simp add: fire_sweep_def Let_def split: option.splits)

lemma fire_sweep_debounced [simp]: "debounced_scans (fire_sweep t s) = debounced_scans s"
  by (simp add: fire_sweep_def Let_def debounced_scans_def split: option.splits)

lemma fire_debounce_Some:
  "timer s = Some (due, r) \<Longrightarrow>
   timer (fire_debounce t s) = None \<and> debounced_scans (fire_debounce t s) = (t, r) # debounced_scans s"
  by (simp add: fire_debounce_def debounced_scans_def)

text \<open>What letting time pass does to the pending timeout and to the record of the
  debounced scans.\<close>

lemma advance_debounce:
  "timer (advance t s) =
     (case timer s of None \<Rightarrow> None | Some (due, r) \<Rightarrow> if due \<le> t then None else Some (due, r)) \<and>
   debounced_scans (advance t s) =
     (case timer s of
        None \<Rightarrow> debounced_scans s
      | Some (due, r) \<Rightarrow> if due \<le> t then (due, r) # debounced_scans s else debounced_scans s)"
proof (induction t s rule: advance.induct)
  case (1 t s)
  show ?case
  proof (cases "timer s")
    case None
    show ?thesis
    proof (cases "sweepDue s \<le> t")
      case True
      with None have "advance t s = advance t (fire_sweep (sweepDue s) s)"
        by (subst advance.simps) simp
      with "1.IH" None True show ?thesis by simp
    next
      case False
      with None have "advance t s = s" by (subst advance.simps) simp
      with None show ?thesis by simp
    qed
  next
    case (Some x)
    obtain due r where x: "x = (due, r)" by (cases x)
    show ?thesis
    proof (cases "due \<le> t \<and> due \<le> sweepDue s")
      case True
      with Some x have a: "advance t s = advance t (fire_debounce due s)"
        by (subst advance.simps) simp
      from Some x have f: "timer (fire_debounce due s) = None"
        "debounced_scans (fire_debounce due s) = (due, r) # debounced_scans s"
        using fire_debounce_Some [of s due r due] by simp_all
      from "1.IH" a f Some x True show ?thesis by simp
    next
      case nd: False
      show ?thesis
      proof (cases "sweepDue s \<le> t")
        case True
        with Some x nd have a: "advance t s = advance t (fire_sweep (sweepDue s) s)"
          by (subst advance.simps) auto
        from "1.IH" nd True a Some x show ?thesis by simp
      next
        case False
        with Some x nd have "advance t s = s" by (subst advance.simps) auto
        moreover from nd False have "\<not> due \<le> t" by linarith
        ultimately show ?thesis using Some x by simp
      qed
    qed
  qed
qed

lemma handle_adds:
  "adds_elements e \<Longrightarrow>
   timer (handle e s) = Some (event_time e + DEBOUNCE_MS, roots_of e) \<and>
   debounced_scans (handle e s) = debounced_scans s"
  by (cases e) (simp_all add: on_mutations_def debounce_call_def)

lemma run_burst:
  assumes "es \<noteq> []" "list_all adds_elements es" "within_window es"
    and "case timer s of None \<Rightarrow> True | Some (due, r) \<Rightarrow> event_time (hd es) < due"
  shows "timer (run es s) = Some (event_time (last es) + DEBOUNCE_MS, roots_of (last es)) \<and>
         debounced_scans (run es s) = debounced_scans s"
  using assms
proof (induction es arbitrary: s)
  case Nil
  then show ?case by simp
next
  case (Cons e es)
  let ?s1 = "advance (event_time e) s"
  let ?s2 = "handle e ?s1"
  from Cons.prems(4) have a: "debounced_scans ?s1 = debounced_scans s"
    using advance_debounce [of "event_time e" s] by (auto split: option.splits)
  from Cons.prems(2) have ad: "adds_elements e" by simp
  from handle_adds [OF ad, of ?s1] a
  have h: "timer ?s2 = Some (event_time e + DEBOUNCE_MS, roots_of e)"
    "debounced_scans ?s2 = debounced_scans s" by simp_all
  show ?case
  proof (cases es)
    case Nil
    with h show ?thesis by simp
  next
    case (Cons e' es')
    with Cons.prems have p: "es \<noteq> []" "list_all adds_elements es" "within_window es"
      "event_time (hd es) < event_time e + DEBOUNCE_MS" by simp_all
    from p(4) h(1) have "case timer ?s2 of None \<Rightarrow> True | Some (due, r) \<Rightarrow> event_time (hd es) < due"
      by simp
    from Cons.IH [OF p(1) p(2) p(3) this] h(2) p(1) show ?thesis by simp
  qed
qed

text \<open>
  Claim C3, as the code has it.  After a burst that starts with no timeout pending,
  and once the debounce window after its last callback has gone by, the debounced
  handler has fired exactly once, at the end of that window, and then nothing is
  pending; the scan it made is that of the roots of the last callback.
\<close>

theorem burst_scans_last_roots_once:
  assumes "burst es" and "timer s = None" and "event_time (last es) + DEBOUNCE_MS \<le> T"
  shows "debounced_scans (advance T (run es s)) =
           (event_time (last es) + DEBOUNCE_MS, roots_of (last es)) # debounced_scans s \<and>
         timer (advance T (run es s)) = None"
proof -
  from assms(1) have b: "es \<noteq> []" "list_all adds_elements es" "within_window es"
    by (simp_all add: burst_def)
  from assms(2) have "case timer s of None \<Rightarrow> True | Some (due, r) \<Rightarrow> event_time (hd es) < due"
    by simp
  from run_burst [OF b this]
  have r: "timer (run es s) = Some (event_time (last es) + DEBOUNCE_MS, roots_of (last es))"
    "debounced_scans (run es s) = debounced_scans s" by simp_all
  from advance_debounce [of T "run es s"] r assms(3) show ?thesis by simp
qed

text \<open>C3 on a burst of two callbacks, 150 ms apart, that report the blocks 2 and 4 of
  \<open>two_blocks_page\<close>.\<close>

theorem burst_scans_last_roots_once_witness:
  "burst [Mutation 100 two_blocks_page [[2]], Mutation 250 two_blocks_page [[4]]] \<and>
   timer idle_loop = None \<and>
   debounced_scans (advance 1000 (run [Mutation 100 two_blocks_page [[2]], Mutation 250 two_blocks_page [[4]]] idle_loop))
     = [(450, [4])] \<and>
   timer (advance 1000 (run [Mutation 100 two_blocks_page [[2]], Mutation 250 two_blocks_page [[4]]] idle_loop)) = None"
proof -
  let ?es = "[Mutation 100 two_blocks_page [[2]], Mutation 250 two_blocks_page [[4]]]"
  have b: "burst ?es" by code_simp
  have t: "timer idle_loop = None" by (simp add: idle_loop_def)
  have l: "event_time (last ?es) + DEBOUNCE_MS \<le> 1000" by (simp add: DEBOUNCE_MS_def)
  have v: "event_time (last ?es) + DEBOUNCE_MS = 450" "roots_of (last ?es) = [4]"
    "debounced_scans idle_loop = []"
    by code_simp+
  from burst_scans_last_roots_once [OF b t l] b t v show ?thesis by simp
qed

text \<open>
  Claim C3 as stated fails: the scan does not cover the union of the roots.  In the
  burst above the block 2 is reported first and the block 4 second; the one scan is
  that of the block 4, and the price in the block 2 stays as it was.
\<close>

theorem earlier_roots_are_dropped:
  "debounced_scans (advance 1000 (run [Mutation 100 two_blocks_page [[2]], Mutation 250 two_blocks_page [[4]]] idle_loop))
     = [(450, [4])] \<and>
   find_node (page (advance 1000 (run [Mutation 100 two_blocks_page [[2]], Mutation 250 two_blocks_page [[4]]] idle_loop))) 2
     = Some (Elem 2 ''div'' [] [Text 3 ''$560 per week'']) \<and>
   find_node (page (advance 1000 (run [Mutation 100 two_blocks_page [[2]], Mutation 250 two_blocks_page [[4]]] idle_loop))) 4
     = Some (Elem 4 ''div'' [(''data-nzd-converted'', ''true'')]
               [Text 5 (''$600/wk '' @ [CHR 0xB7] @ '' US$1,534/mo'')])"
  by code_simp

section \<open>The fallback sweep\<close>

lemma sweep_scans_upd [simp]:
  "sweep_scans (s\<lparr>page := d\<rparr>) = sweep_scans s"
  "sweep_scans (s\<lparr>timer := x\<rparr>) = sweep_scans s"
  "sweep_scans (s\<lparr>sweepDue := y\<rparr>) = sweep_scans s"
  "sweep_scans (s\<lparr>lastScrollTime := z\<rparr>) = sweep_scans s"
  "sweep_scans (s\<lparr>scans := DebouncedScan t r # scans s\<rparr>) = sweep_scans s"
  "sweep_scans (s\<lparr>scans := SweepScan t # scans s\<rparr>) = t # sweep_scans s"
  by (simp_all add: sweep_scans_def)

lemma fire_debounce_sweep [simp]:
  "sweep_scans (fire_debounce t s) = sweep_scans s"
  "lastScrollTime (fire_debounce t s) = lastScrollTime s"
  "sweepDue (fire_debounce t s) = sweepDue s"
  by (simp_all add: fire_debounce_def sweep_scans_def split: option.splits)

lemma fire_sweep_fields [simp]:
  "lastScrollTime (fire_sweep t s) = lastScrollTime s"
  "sweepDue (fire_sweep t s) = sweepDue s + SWEEP_INTERVAL_MS"
  by (simp_all add: fire_sweep_def Let_def split: option.splits)

lemma fire_sweep_scans:
  "sweep_scans (fire_sweep t s) = sweep_scans s \<or>
   (sweep_scans (fire_sweep t s) = t # sweep_scans s \<and> t \<le> lastScrollTime s + SWEEP_IDLE_MS)"
  by (auto simp: fire_sweep_def Let_def sweep_scans_def split: option.splits)

lemma fire_sweep_idle:
  "SWEEP_IDLE_MS < t - lastScrollTime s \<Longrightarrow>
   page (fire_sweep t s) = page s \<and> scans (fire_sweep t s) = scans s"
  by (simp add: fire_sweep_def Let_def)

lemma handle_sweep [simp]:
  "sweep_scans (handle e s) = sweep_scans s"
  "sweepDue (handle e s) = sweepDue s"
  by (cases e; simp add: on_mutations_def debounce_call_def on_scroll_def sweep_scans_def)+

lemma handle_lastScroll:
  "lastScrollTime (handle e s) = (case e of Scroll t \<Rightarrow> t | Mutation t d ms \<Rightarrow> lastScrollTime s)"
  by (cases e) (simp_all add: on_mutations_def debounce_call_def on_scroll_def)

text \<open>Letting time pass: the scroll time stays, and every sweep scan that is added lies
  within the idle period after it.\<close>

lemma advance_sweeps:
  "lastScrollTime (advance t s) = lastScrollTime s \<and>
   (\<exists>new. sweep_scans (advance t s) = new @ sweep_scans s \<and>
          list_all (\<lambda>x. x \<le> lastScrollTime s + SWEEP_IDLE_MS) new)"
proof (induction t s rule: advance.induct)
  case (1 t s)
  have stop: "advance t s = s \<Longrightarrow> ?case"
    by (auto intro: exI [of _ "[]"])
  have deb: "advance t s = advance t (fire_debounce due s) \<Longrightarrow>
      lastScrollTime (advance t (fire_debounce due s)) = lastScrollTime (fire_debounce due s) \<and>
      (\<exists>new. sweep_scans (advance t (fire_debounce due s)) = new @ sweep_scans (fire_debounce due s) \<and>
          list_all (\<lambda>x. x \<le> lastScrollTime (fire_debounce due s) + SWEEP_IDLE_MS) new) \<Longrightarrow> ?case" for due
    by simp
  have swp: "advance t s = advance t (fire_sweep (sweepDue s) s) \<Longrightarrow>
      lastScrollTime (advance t (fire_sweep (sweepDue s) s)) = lastScrollTime (fire_sweep (sweepDue s) s) \<and>
      (\<exists>new. sweep_scans (advance t (fire_sweep (sweepDue s) s)) = new @ sweep_scans (fire_sweep (sweepDue s) s) \<and>
          list_all (\<lambda>x. x \<le> lastScrollTime (fire_sweep (sweepDue s) s) + SWEEP_IDLE_MS) new) \<Longrightarrow> ?case"
  proof -
    assume a: "advance t s = advance t (fire_sweep (sweepDue s) s)"
      and b: "lastScrollTime (advance t (fire_sweep (sweepDue s) s)) = lastScrollTime (fire_sweep (sweepDue s) s) \<and>
      (\<exists>new. sweep_scans (advance t (fire_sweep (sweepDue s) s)) = new @ sweep_scans (fire_sweep (sweepDue s) s) \<and>
          list_all (\<lambda>x. x \<le> lastScrollTime (fire_sweep (sweepDue s) s) + SWEEP_IDLE_MS) new)"
    from b obtain new where n: "sweep_scans (advance t s) = new @ sweep_scans (fire_sweep (sweepDue s) s)"
      "list_all (\<lambda>x. x \<le> lastScrollTime s + SWEEP_IDLE_MS) new"
      using a by auto
    from fire_sweep_scans [of "sweepDue s" s] show ?case
    proof
      assume "sweep_scans (fire_sweep (sweepDue s) s) = sweep_scans s"
      with n a b show ?case by auto
    next
      assume c: "sweep_scans (fire_sweep (sweepDue s) s) = sweepDue s # sweep_scans s \<and>
        sweepDue s \<le> lastScrollTime s + SWEEP_IDLE_MS"
      with n have "sweep_scans (advance t s) = (new @ [sweepDue s]) @ sweep_scans s"
        "list_all (\<lambda>x. x \<le> lastScrollTime s + SWEEP_IDLE_MS) (new @ [sweepDue s])"
        by simp_all
      with a b show ?case by (metis fire_sweep_fields(1))
    qed
  qed
  show ?case
  proof (cases "timer s")
    case None
    show ?thesis
    proof (cases "sweepDue s \<le> t")
      case True
      with None have a: "advance t s = advance t (fire_sweep (sweepDue s) s)"
        by (subst advance.simps) simp
      from "1.IH" None True have "lastScrollTime (advance t (fire_sweep (sweepDue s) s)) = lastScrollTime (fire_sweep (sweepDue s) s) \<and>
      (\<exists>new. sweep_scans (advance t (fire_sweep (sweepDue s) s)) = new @ sweep_scans (fire_sweep (sweepDue s) s) \<and>
          list_all (\<lambda>x. x \<le> lastScrollTime (fire_sweep (sweepDue s) s) + SWEEP_IDLE_MS) new)"
        by blast
      with a show ?thesis by (rule swp)
    next
      case False
      with None have "advance t s = s" by (subst advance.simps) simp
      then show ?thesis by (rule stop)
    qed
  next
    case (Some x)
    obtain due r where x: "x = (due, r)" by (cases x)
    show ?thesis
    proof (cases "due \<le> t \<and> due \<le> sweepDue s")
      case True
      with Some x have a: "advance t s = advance t (fire_debounce due s)"
        by (subst advance.simps) simp
      from "1.IH" Some x True have "lastScrollTime (advance t (fire_debounce due s)) = lastScrollTime (fire_debounce due s) \<and>
      (\<exists>new. sweep_scans (advance t (fire_debounce due s)) = new @ sweep_scans (fire_debounce due s) \<and>
          list_all (\<lambda>x. x \<le> lastScrollTime (fire_debounce due s) + SWEEP_IDLE_MS) new)"
        by blast
      with a show ?thesis by (rule deb)
    next
      case nd: False
      show ?thesis
      proof (cases "sweepDue s \<le> t")
        case True
        with Some x nd have a: "advance t s = advance t (fire_sweep (sweepDue s) s)"
          by (subst advance.simps) auto
        from "1.IH" Some x nd True have "lastScrollTime (advance t (fire_sweep (sweepDue s) s)) = lastScrollTime (fire_sweep (sweepDue s) s) \<and>
      (\<exists>new. sweep_scans (advance t (fire_sweep (sweepDue s) s)) = new @ sweep_scans (fire_sweep (sweepDue s) s) \<and>
          list_all (\<lambda>x. x \<le> lastScrollTime (fire_sweep (sweepDue s) s) + SWEEP_IDLE_MS) new)"
          by blast
        with a show ?thesis by (rule swp)
      next
        case False
        with Some x nd have "advance t s = s" by (subst advance.simps) auto
        then show ?thesis by (rule stop)
      qed
    qed
  qed
qed

lemma run_sweeps:
  "\<not> list_ex is_scroll es \<Longrightarrow>
   lastScrollTime (run es s) = lastScrollTime s \<and>
   (\<exists>new. sweep_scans (run es s) = new @ sweep_scans s \<and>
          list_all (\<lambda>x. x \<le> lastScrollTime s + SWEEP_IDLE_MS) new)"
proof (induction es arbitrary: s)
  case Nil
  show ?case by (auto intro: exI [of _ "[]"])
next
  case (Cons e es)
  let ?s1 = "advance (event_time e) s"
  let ?s2 = "handle e ?s1"
  from Cons.prems have ns: "\<not> is_scroll e" "\<not> list_ex is_scroll es" by simp_all
  from advance_sweeps [of "event_time e" s] obtain n1 where
    a: "lastScrollTime ?s1 = lastScrollTime s" "sweep_scans ?s1 = n1 @ sweep_scans s"
       "list_all (\<lambda>x. x \<le> lastScrollTime s + SWEEP_IDLE_MS) n1" by blast
  from ns(1) a(1) have l2: "lastScrollTime ?s2 = lastScrollTime s"
    by (cases e) (simp_all add: on_mutations_def debounce_call_def)
  from Cons.IH [OF ns(2), of ?s2] l2 obtain n2 where
    b: "lastScrollTime (run es ?s2) = lastScrollTime s" "sweep_scans (run es ?s2) = n2 @ sweep_scans ?s2"
       "list_all (\<lambda>x. x \<le> lastScrollTime s + SWEEP_IDLE_MS) n2" by auto
  from a b have "sweep_scans (run (e # es) s) = (n2 @ n1) @ sweep_scans s"
    "list_all (\<lambda>x. x \<le> lastScrollTime s + SWEEP_IDLE_MS) (n2 @ n1)" by simp_all
  with b(1) show ?case by (metis run.simps(2))
qed

lemma advance_invariant:
  assumes "P s"
    and "\<And>s due. P s \<Longrightarrow> P (fire_debounce due s)"
    and "\<And>s. P s \<Longrightarrow> P (fire_sweep (sweepDue s) s)"
  shows "P (advance t s)"
  using assms(1)
proof (induction t s rule: advance.induct)
  case (1 t s)
  show ?case
  proof (cases "timer s")
    case None
    show ?thesis
    proof (cases "sweepDue s \<le> t")
      case True
      with None have a: "advance t s = advance t (fire_sweep (sweepDue s) s)"
        by (subst advance.simps) simp
      from "1.IH" None True assms(3) [OF "1.prems"] a show ?thesis by simp
    next
      case False
      with None have "advance t s = s" by (subst advance.simps) simp
      with "1.prems" show ?thesis by simp
    qed
  next
    case (Some x)
    obtain due r where x: "x = (due, r)" by (cases x)
    show ?thesis
    proof (cases "due \<le> t \<and> due \<le> sweepDue s")
      case True
      with Some x have a: "advance t s = advance t (fire_debounce due s)"
        by (subst advance.simps) simp
      from "1.IH" Some x True assms(2) [OF "1.prems", of due] a show ?thesis by simp
    next
      case nd: False
      show ?thesis
      proof (cases "sweepDue s \<le> t")
        case True
        with Some x nd have a: "advance t s = advance t (fire_sweep (sweepDue s) s)"
          by (subst advance.simps) auto
        from "1.IH" Some x nd True assms(3) [OF "1.prems"] a show ?thesis by simp
      next
        case False
        with Some x nd have "advance t s = s" by (subst advance.simps) auto
        with "1.prems" show ?thesis by simp
      qed
    qed
  qed
qed

lemma spaced_fire_debounce: "sweeps_spaced s \<Longrightarrow> sweeps_spaced (fire_debounce due s)"
  by (simp add: sweeps_spaced_def)

lemma spaced_fire_sweep: "sweeps_spaced s \<Longrightarrow> sweeps_spaced (fire_sweep (sweepDue s) s)"
proof -
  assume a: "sweeps_spaced s"
  then have l: "list_all (\<lambda>x. x + SWEEP_INTERVAL_MS \<le> sweepDue s + SWEEP_INTERVAL_MS) (sweep_scans s)"
    by (auto simp: sweeps_spaced_def list_all_iff SWEEP_INTERVAL_MS_def)
  from fire_sweep_scans [of "sweepDue s" s] show ?thesis
  proof
    assume "sweep_scans (fire_sweep (sweepDue s) s) = sweep_scans s"
    with a l show ?thesis by (simp add: sweeps_spaced_def)
  next
    assume c: "sweep_scans (fire_sweep (sweepDue s) s) = sweepDue s # sweep_scans s \<and>
      sweepDue s \<le> lastScrollTime s + SWEEP_IDLE_MS"
    from a have "spaced (sweepDue s # sweep_scans s)"
      by (cases "sweep_scans s") (simp_all add: sweeps_spaced_def)
    with c l show ?thesis by (simp add: sweeps_spaced_def)
  qed
qed

lemma spaced_handle: "sweeps_spaced s \<Longrightarrow> sweeps_spaced (handle e s)"
  by (simp add: sweeps_spaced_def)

lemma spaced_advance: "sweeps_spaced s \<Longrightarrow> sweeps_spaced (advance t s)"
  by (rule advance_invariant [where P = sweeps_spaced]) (simp_all add: spaced_fire_debounce spaced_fire_sweep)

lemma spaced_run: "sweeps_spaced s \<Longrightarrow> sweeps_spaced (run es s)"
  by (induction es arbitrary: s) (simp_all add: spaced_advance spaced_handle)

lemma spaced_init: "initWithRate now rate d = Some s \<Longrightarrow> sweeps_spaced s"
  by (auto simp: initWithRate_def sweeps_spaced_def sweep_scans_def split: option.splits)

text \<open>
  Claim C9.  A tick of the sweep interval that comes more than 10 seconds after the
  last scroll time changes nothing and scans nothing.  After a scroll at \<open>ts\<close>, as long
  as no further scroll is observed, every sweep scan that is made lies at most 10
  seconds after \<open>ts\<close>.  And in every run of the loop that \<open>initWithRate\<close> starts, two
  sweep scans are at least one interval of 1.5 seconds apart.
\<close>

theorem sweep_is_spaced_and_stops_when_idle:
  "(SWEEP_IDLE_MS < t - lastScrollTime s \<longrightarrow>
      page (fire_sweep t s) = page s \<and> scans (fire_sweep t s) = scans s) \<and>
   (\<not> list_ex is_scroll es \<longrightarrow>
      (\<exists>new. sweep_scans (advance T (run es (handle (Scroll ts) s))) = new @ sweep_scans s \<and>
             list_all (\<lambda>x. x \<le> ts + SWEEP_IDLE_MS) new)) \<and>
   (initWithRate now rate d = Some s0 \<longrightarrow> spaced (sweep_scans (advance T (run es s0))))"
proof -
  have 1: "SWEEP_IDLE_MS < t - lastScrollTime s \<longrightarrow>
      page (fire_sweep t s) = page s \<and> scans (fire_sweep t s) = scans s"
    using fire_sweep_idle [of t s] by blast
  have 2: "\<not> list_ex is_scroll es \<longrightarrow>
      (\<exists>new. sweep_scans (advance T (run es (handle (Scroll ts) s))) = new @ sweep_scans s \<and>
             list_all (\<lambda>x. x \<le> ts + SWEEP_IDLE_MS) new)"
  proof
    assume ns: "\<not> list_ex is_scroll es"
    let ?s1 = "handle (Scroll ts) s"
    have l1: "lastScrollTime ?s1 = ts" "sweep_scans ?s1 = sweep_scans s"
      by (simp_all add: on_scroll_def sweep_scans_def)
    from run_sweeps [OF ns, of ?s1] l1 obtain n1 where
      a: "lastScrollTime (run es ?s1) = ts" "sweep_scans (run es ?s1) = n1 @ sweep_scans s"
         "list_all (\<lambda>x. x \<le> ts + SWEEP_IDLE_MS) n1" by auto
    from advance_sweeps [of T "run es ?s1"] a(1) obtain n2 where
      b: "sweep_scans (advance T (run es ?s1)) = n2 @ sweep_scans (run es ?s1)"
         "list_all (\<lambda>x. x \<le> ts + SWEEP_IDLE_MS) n2" by auto
    from a b have "sweep_scans (advance T (run es ?s1)) = (n2 @ n1) @ sweep_scans s"
      "list_all (\<lambda>x. x \<le> ts + SWEEP_IDLE_MS) (n2 @ n1)" by simp_all
    then show "\<exists>new. sweep_scans (advance T (run es ?s1)) = new @ sweep_scans s \<and>
             list_all (\<lambda>x. x \<le> ts + SWEEP_IDLE_MS) new" by blast
  qed
  have 3: "initWithRate now rate d = Some s0 \<longrightarrow> spaced (sweep_scans (advance T (run es s0)))"
    using spaced_advance [OF spaced_run [OF spaced_init]] by (auto simp: sweeps_spaced_def)
  from 1 2 3 show ?thesis by blast
qed

text \<open>C9 on examples: a tick at 12000 with the last scroll at 0; a scroll at 3100
  followed by one mutation and 20 seconds, with the scans that are made; and the loop
  started on \<open>two_blocks_page\<close>.\<close>

theorem sweep_is_spaced_and_stops_when_idle_witness:
  "page (fire_sweep 12000 idle_loop) = page idle_loop \<and>
   scans (fire_sweep 12000 idle_loop) = scans idle_loop \<and>
   sweep_scans (advance 20000 (run [Mutation 3200 two_blocks_page [[2]]] (handle (Scroll 3100) idle_loop)))
     = [12000, 10500, 9000, 7500, 6000, 4500, 3000, 1500] \<and>
   (\<exists>new. sweep_scans (advance 20000 (run [Mutation 3200 two_blocks_page [[2]]] (handle (Scroll 3100) idle_loop)))
            = new @ sweep_scans idle_loop \<and>
          list_all (\<lambda>x. x \<le> 3100 + SWEEP_IDLE_MS) new) \<and>
   initWithRate 0 FALLBACK_RATE two_blocks_page \<noteq> None \<and>
   spaced (sweep_scans (advance 20000 (run [Scroll 100] (the (initWithRate 0 FALLBACK_RATE two_blocks_page)))))"
proof -
  note T = sweep_is_spaced_and_stops_when_idle
  have h1: "SWEEP_IDLE_MS < 12000 - lastScrollTime idle_loop" by code_simp
  have h2: "\<not> list_ex is_scroll [Mutation 3200 two_blocks_page [[2]]]" by simp
  have v2: "sweep_scans (advance 20000 (run [Mutation 3200 two_blocks_page [[2]]] (handle (Scroll 3100) idle_loop)))
     = [12000, 10500, 9000, 7500, 6000, 4500, 3000, 1500]" by code_simp
  have h3: "initWithRate 0 FALLBACK_RATE two_blocks_page \<noteq> None" by code_simp
  then have h3': "initWithRate 0 FALLBACK_RATE two_blocks_page = Some (the (initWithRate 0 FALLBACK_RATE two_blocks_page))"
    by simp
  from T [where t = 12000 and s = idle_loop] h1
  have a: "page (fire_sweep 12000 idle_loop) = page idle_loop \<and> scans (fire_sweep 12000 idle_loop) = scans idle_loop"
    by blast
  from T [where es = "[Mutation 3200 two_blocks_page [[2]]]" and T = 20000 and ts = 3100 and s = idle_loop] h2
  have b: "\<exists>new. sweep_scans (advance 20000 (run [Mutation 3200 two_blocks_page [[2]]] (handle (Scroll 3100) idle_loop)))
            = new @ sweep_scans idle_loop \<and> list_all (\<lambda>x. x \<le> 3100 + SWEEP_IDLE_MS) new"
    by blast
  from T [where now = 0 and rate = FALLBACK_RATE and d = two_blocks_page
            and ?s0.0 = "the (initWithRate 0 FALLBACK_RATE two_blocks_page)" and T = 20000 and es = "[Scroll 100]"] h3'
  have c: "spaced (sweep_scans (advance 20000 (run [Scroll 100] (the (initWithRate 0 FALLBACK_RATE two_blocks_page)))))"
    by blast
  from a b c v2 h3 show ?thesis by blast
qed

end
